theory Spec2Isabelle
  imports
    Complex_Main
    "HOL-Library.Char_ord"
    "HOL-Library.List_Lexorder"
    "HOL-Library.Product_Lexorder"
    "HOL-Library.Multiset"
begin

section \<open>Candidate records and the object store\<close>

text \<open>
  A candidate is a Python dict with a fixed vocabulary of keys. Every key may be absent,
  so each field is an option: \<open>None\<close> is "key not in the dict". A float is the real
  number it stands for (a finite double; no NaN), a Python int is an \<open>int\<close>, the nested
  dicts \<open>metrics\<close> and \<open>skills\<close> are association lists. A \<open>str\<close> is the list of the
  bytes of its UTF-8 encoding; the order of such lists, byte by byte, is the order of the
  strings by code point, which is how Python compares them.
\<close>

record candidate =
  name :: "string option"
  score :: "real option"
  weighted_sum :: "real option"
  net_skills :: "int option"
  metrics :: "(string \<times> int) list option"
  skills :: "(string \<times> string list) list option"
  recruiter_note :: "string option"
  error :: "string option"
  rank :: "int option"

text \<open>
  Lists and dicts are mutable objects that are passed by reference. The store keeps the
  dict objects and the list objects apart, each under its own addresses; a list object
  holds the addresses of its elements. \<open>next_list\<close> is the allocation pointer of the list
  objects: a new list is placed there.
\<close>

type_synonym addr = nat

record store =
  dict_heap :: "addr \<Rightarrow> candidate"
  list_heap :: "addr \<Rightarrow> addr list"
  next_list :: addr

definition alloc_list :: "store \<Rightarrow> addr list \<Rightarrow> store \<times> addr" where
  "alloc_list s xs =
     (s\<lparr>list_heap := (list_heap s)(next_list s := xs), next_list := Suc (next_list s)\<rparr>,
      next_list s)"

section \<open>What the Python runtime provides\<close>

text \<open>
  \<open>str.lower\<close>, \<open>str.title\<close> and \<open>str.strip\<close> follow the Unicode character database,
  and \<open>sum\<close>, \<open>/\<close> and \<open>round\<close> on floats are double-precision operations of the
  interpreter. None of them is code of the two modules, so they are parameters of the
  model: every function below that calls one takes the string methods \<open>u\<close> or the float
  operations \<open>fl\<close> as an argument, and the properties hold for whatever they compute.
  \<open>float_truediv\<close> is the quotient by a non-zero int.
\<close>

record str_methods =
  str_lower :: "string \<Rightarrow> string"
  str_title :: "string \<Rightarrow> string"
  str_strip :: "string \<Rightarrow> string"

record float_ops =
  float_sum :: "real list \<Rightarrow> real"
  float_truediv :: "real \<Rightarrow> int \<Rightarrow> real"
  float_round :: "real \<Rightarrow> int \<Rightarrow> real"

subsection \<open>The string methods on ASCII strings\<close>

text \<open>
  On a string of ASCII characters the three methods are fixed by the language reference:
  \<open>lower\<close> moves A to Z onto a to z and keeps every other character; \<open>title\<close> raises a
  letter that starts the string or follows a character that is not a letter, lowers a
  letter that follows a letter, and keeps the rest; \<open>strip\<close> removes the whitespace at
  both ends, which in ASCII is the codes 9 to 13 and 28 to 32.
\<close>

definition is_ascii :: "string \<Rightarrow> bool" where
  "is_ascii s = list_all (\<lambda>c. (of_char c :: nat) < 128) s"

definition lower_char :: "char \<Rightarrow> char" where
  "lower_char c =
     (if CHR ''A'' \<le> c \<and> c \<le> CHR ''Z'' then char_of (of_char c + (32::nat)) else c)"

definition upper_char :: "char \<Rightarrow> char" where
  "upper_char c =
     (if CHR ''a'' \<le> c \<and> c \<le> CHR ''z'' then char_of (of_char c - (32::nat)) else c)"

definition is_cased :: "char \<Rightarrow> bool" where
  "is_cased c = ((CHR ''A'' \<le> c \<and> c \<le> CHR ''Z'') \<or> (CHR ''a'' \<le> c \<and> c \<le> CHR ''z''))"

definition is_space :: "char \<Rightarrow> bool" where
  "is_space c = (let n = (of_char c :: nat) in (9 \<le> n \<and> n \<le> 13) \<or> (28 \<le> n \<and> n \<le> 32))"

definition ascii_lower :: "string \<Rightarrow> string" where
  "ascii_lower s = map lower_char s"

fun title_from :: "bool \<Rightarrow> string \<Rightarrow> string" where
  "title_from previous_is_cased [] = []"
| "title_from previous_is_cased (c # cs) =
     (if previous_is_cased then lower_char c else upper_char c) # title_from (is_cased c) cs"

definition ascii_title :: "string \<Rightarrow> string" where
  "ascii_title s = title_from False s"

definition ascii_strip :: "string \<Rightarrow> string" where
  "ascii_strip s = rev (dropWhile is_space (rev (dropWhile is_space s)))"

text \<open>String methods that do on ASCII strings what Python's do.\<close>

definition agrees_on_ascii :: "str_methods \<Rightarrow> bool" where
  "agrees_on_ascii u \<longleftrightarrow>
     (\<forall>s. is_ascii s \<longrightarrow>
        str_lower u s = ascii_lower s \<and> str_title u s = ascii_title s \<and>
        str_strip u s = ascii_strip s)"

text \<open>
  \<open>title\<close> maps every character to one or more characters, so the title of a string that
  is not empty is not empty.
\<close>

definition title_keeps_nonempty :: "str_methods \<Rightarrow> bool" where
  "title_keeps_nonempty u \<longleftrightarrow> (\<forall>s. s \<noteq> [] \<longrightarrow> str_title u s \<noteq> [])"

text \<open>The ASCII methods themselves, for running the model on ASCII inputs.\<close>

definition ascii_methods :: str_methods where
  "ascii_methods = \<lparr>str_lower = ascii_lower, str_title = ascii_title, str_strip = ascii_strip\<rparr>"

section \<open>Ranking.py\<close>

subsection \<open>get_domain_leaderboard\<close>

text \<open>\<open>c.get("score", 0.0)\<close> and \<open>c.get("name", "")\<close>.\<close>

definition get_score :: "candidate \<Rightarrow> real" where
  "get_score c = (case score c of None \<Rightarrow> 0 | Some x \<Rightarrow> x)"

definition get_name :: "candidate \<Rightarrow> string" where
  "get_name c = (case name c of None \<Rightarrow> [] | Some n \<Rightarrow> n)"

text \<open>
  The key of the sort, \<open>lambda c: (-c.get("score", 0.0), c.get("name", "").lower())\<close>.
  Python compares the tuples lexicographically, which is the order of \<open>real \<times> string\<close>.
\<close>

definition leaderboard_key :: "str_methods \<Rightarrow> candidate \<Rightarrow> real \<times> string" where
  "leaderboard_key u c = (- get_score c, str_lower u (get_name c))"

text \<open>
  The loop \<open>for rank, candidate in enumerate(ranked, start=1): candidate["rank"] = rank\<close>:
  it writes through the reference into the dict object.
\<close>

fun assign_ranks :: "store \<Rightarrow> int \<Rightarrow> addr list \<Rightarrow> store" where
  "assign_ranks s r [] = s"
| "assign_ranks s r (a # as) =
     assign_ranks (s\<lparr>dict_heap := (dict_heap s)(a := (dict_heap s a)\<lparr>rank := Some r\<rparr>)\<rparr>)
       (r + 1) as"

text \<open>
  \<open>sorted(candidates, key=...)\<close> builds a new list object, stably sorted by the key
  (\<open>sort_key\<close> is a stable insertion sort); the argument is a reference to a list object.
\<close>

definition get_domain_leaderboard :: "str_methods \<Rightarrow> store \<Rightarrow> addr \<Rightarrow> store \<times> addr" where
  "get_domain_leaderboard u s candidates =
     (let (s1, ranked) =
            alloc_list s
              (sort_key (\<lambda>a. leaderboard_key u (dict_heap s a)) (list_heap s candidates));
          s2 = assign_ranks s1 1 (list_heap s1 ranked)
      in (s2, ranked))"

text \<open>The records a list object holds, read through the store.\<close>

definition records_of :: "store \<Rightarrow> addr \<Rightarrow> candidate list" where
  "records_of s l = map (dict_heap s) (list_heap s l)"

subsection \<open>build_leaderboard_summary\<close>

text \<open>
  An exception is known by its class, by whether the class derives from \<open>Exception\<close>
  (\<open>KeyboardInterrupt\<close>, \<open>SystemExit\<close> and \<open>GeneratorExit\<close> do not), and by the text
  that \<open>str(exc)\<close> gives.
\<close>

datatype py_exception =
  PyException (exc_class: string) (is_Exception: bool) (str_exception: string)

text \<open>
  The exceptions that the two modules raise themselves. \<open>str\<close> of a \<open>KeyError\<close> is the
  \<open>repr\<close> of the key, which for the keys used here is the key between single quotes.
\<close>

definition ValueError :: "string \<Rightarrow> py_exception" where
  "ValueError m = PyException ''ValueError'' True m"

definition KeyError :: "string \<Rightarrow> py_exception" where
  "KeyError k = PyException ''KeyError'' True ([CHR 0x27] @ k @ [CHR 0x27])"

definition IndexError :: "string \<Rightarrow> py_exception" where
  "IndexError m = PyException ''IndexError'' True m"

definition ZeroDivisionError :: "string \<Rightarrow> py_exception" where
  "ZeroDivisionError m = PyException ''ZeroDivisionError'' True m"

definition KeyboardInterrupt :: py_exception where
  "KeyboardInterrupt = PyException ''KeyboardInterrupt'' False []"

text \<open>\<open>x / n\<close> for a float \<open>x\<close> and an int \<open>n\<close>: it raises on a zero divisor.\<close>

definition py_truediv :: "float_ops \<Rightarrow> real \<Rightarrow> int \<Rightarrow> py_exception + real" where
  "py_truediv fl x n =
     (if n = 0 then Inl (ZeroDivisionError ''division by zero'') else Inr (float_truediv fl x n))"

text \<open>\<open>xs[i]\<close> for a non-negative index.\<close>

definition py_index :: "'a list \<Rightarrow> nat \<Rightarrow> py_exception + 'a" where
  "py_index xs i =
     (if i < length xs then Inr (xs ! i) else Inl (IndexError ''list index out of range''))"

text \<open>\<open>m.get(k, d)\<close> on a dict kept as an association list.\<close>

definition dict_get :: "('k \<times> 'v) list \<Rightarrow> 'k \<Rightarrow> 'v \<Rightarrow> 'v" where
  "dict_get m k d = (case map_of m k of None \<Rightarrow> d | Some v \<Rightarrow> v)"

definition get_metrics :: "candidate \<Rightarrow> (string \<times> int) list" where
  "get_metrics c = (case metrics c of None \<Rightarrow> [] | Some m \<Rightarrow> m)"

record distribution =
  strong :: int
  medium :: int
  weak :: int

record summary =
  total_candidates :: int
  top_candidate :: "string option"
  average_score :: real
  score_distribution :: distribution

text \<open>
  The loop over \<open>ranked_candidates\<close> that adds each candidate's tier counts to \<open>dist\<close>
  (here \<open>distr\<close>).
\<close>

fun tally :: "store \<Rightarrow> distribution \<Rightarrow> addr list \<Rightarrow> distribution" where
  "tally s distr [] = distr"
| "tally s distr (a # as) =
     (let m = get_metrics (dict_heap s a)
      in tally s
           \<lparr>strong = strong distr + dict_get m ''total_strong_skills'' 0,
            medium = medium distr + dict_get m ''total_medium_skills'' 0,
            weak = weak distr + dict_get m ''total_weak_skills'' 0\<rparr> as)"

definition build_leaderboard_summary ::
  "float_ops \<Rightarrow> store \<Rightarrow> addr \<Rightarrow> py_exception + summary" where
  "build_leaderboard_summary fl s ranked_candidates =
     (let cs = list_heap s ranked_candidates in
      if cs = [] then
        Inr \<lparr>total_candidates = 0, top_candidate = None, average_score = 0,
             score_distribution = \<lparr>strong = 0, medium = 0, weak = 0\<rparr>\<rparr>
      else
        let scores = map (\<lambda>a. get_score (dict_heap s a)) cs in
        case py_truediv fl (float_sum fl scores) (int (length scores)) of
          Inl e \<Rightarrow> Inl e
        | Inr q \<Rightarrow>
            let avg = float_round fl q 4;
                distr = tally s \<lparr>strong = 0, medium = 0, weak = 0\<rparr> cs
            in case py_index cs 0 of
                 Inl e \<Rightarrow> Inl e
               | Inr a \<Rightarrow>
                   Inr \<lparr>total_candidates = int (length cs),
                        top_candidate = name (dict_heap s a),
                        average_score = avg,
                        score_distribution = distr\<rparr>)"

section \<open>app.py\<close>

subsection \<open>Effects and exceptions\<close>

text \<open>
  The collaborators (PDF extraction, parsing, skill matching, metrics, scoring, the note
  generator) live outside these two files and do input and output. A computation takes
  the state of the outside world and returns either an exception or a value, with the
  new world. The world \<open>'w\<close> is left abstract.
\<close>

type_synonym ('a, 'w) io = "'w \<Rightarrow> (py_exception + 'a) \<times> 'w"

definition return_io :: "'a \<Rightarrow> ('a, 'w) io" where
  "return_io x w = (Inr x, w)"

definition raise_io :: "py_exception \<Rightarrow> ('a, 'w) io" where
  "raise_io e w = (Inl e, w)"

definition bind_io :: "('a, 'w) io \<Rightarrow> ('a \<Rightarrow> ('b, 'w) io) \<Rightarrow> ('b, 'w) io" where
  "bind_io m f w = (case m w of (Inl e, w') \<Rightarrow> (Inl e, w') | (Inr x, w') \<Rightarrow> f x w')"

text \<open>
  \<open>try: body except Exception as exc: handler\<close>: the handler runs for an instance of
  \<open>Exception\<close>; any other exception passes through.
\<close>

definition try_except :: "('a, 'w) io \<Rightarrow> (py_exception \<Rightarrow> ('a, 'w) io) \<Rightarrow> ('a, 'w) io" where
  "try_except body handler w =
     (case body w of
        (Inl exc, w') \<Rightarrow> if is_Exception exc then handler exc w' else (Inl exc, w')
      | (Inr x, w') \<Rightarrow> (Inr x, w'))"

text \<open>\<open>d[k]\<close> on a dict whose key \<open>k\<close> may be absent.\<close>

definition subscript :: "'a option \<Rightarrow> string \<Rightarrow> ('a, 'w) io" where
  "subscript v k = (case v of None \<Rightarrow> raise_io (KeyError k) | Some x \<Rightarrow> return_io x)"

subsection \<open>The collaborators\<close>

text \<open>An uploaded file: a falsy \<open>FileStorage\<close> is one whose filename is empty.\<close>

record file_storage =
  filename :: string
  stream :: string

text \<open>The dict that \<open>calculate_skill_strength\<close> returns, with its three keys.\<close>

record scoring =
  scoring_skill_strength_score :: "real option"
  scoring_weighted_sum :: "real option"
  scoring_net_skills :: "int option"

text \<open>
  The functions imported from \<open>Backend.Extraction\<close>, \<open>Backend.Skilldomain\<close> and
  \<open>Backend.llm\<close>, and the API key read from the environment, are parameters: each may
  return, raise any exception, and change the world in any way. \<open>'s\<close> is the structured
  document that \<open>list_to_json\<close> builds.
\<close>

record ('s, 'w) env =
  pdf_extract :: "file_storage \<Rightarrow> (string option, 'w) io"
  list_to_json :: "string \<Rightarrow> ('s, 'w) io"
  SKILL_DICT :: "(string \<times> string list) list"
  extract_skill_from_resume ::
    "'s \<Rightarrow> (string \<times> string list) list \<Rightarrow> ((string \<times> string list) list, 'w) io"
  generate_analysis_metrics :: "(string \<times> string list) list \<Rightarrow> ((string \<times> int) list, 'w) io"
  calculate_skill_strength :: "(string \<times> int) list \<Rightarrow> (scoring, 'w) io"
  get_recruiter_note ::
    "string option \<Rightarrow> string \<Rightarrow> string \<Rightarrow> (string \<times> string list) list \<Rightarrow> real \<Rightarrow> (string, 'w) io"
  GEMINI_KEY :: "string option"

text \<open>Collaborators that raise nothing but instances of \<open>Exception\<close>.\<close>

definition raises_only_Exception :: "('s, 'w) env \<Rightarrow> bool" where
  "raises_only_Exception e \<longleftrightarrow>
     (\<forall>f w exc w'. pdf_extract e f w = (Inl exc, w') \<longrightarrow> is_Exception exc) \<and>
     (\<forall>t w exc w'. list_to_json e t w = (Inl exc, w') \<longrightarrow> is_Exception exc) \<and>
     (\<forall>d t w exc w'. extract_skill_from_resume e d t w = (Inl exc, w') \<longrightarrow> is_Exception exc) \<and>
     (\<forall>sk w exc w'. generate_analysis_metrics e sk w = (Inl exc, w') \<longrightarrow> is_Exception exc) \<and>
     (\<forall>m w exc w'. calculate_skill_strength e m w = (Inl exc, w') \<longrightarrow> is_Exception exc) \<and>
     (\<forall>k n d sk sc w exc w'.
        get_recruiter_note e k n d sk sc w = (Inl exc, w') \<longrightarrow> is_Exception exc)"

subsection \<open>_process_single_resume\<close>

text \<open>The message of the \<open>ValueError\<close>; the dash is U+2014, three bytes in UTF-8.\<close>

definition empty_pdf_message :: string where
  "empty_pdf_message =
     ''Empty PDF '' @ [CHR 0xE2, CHR 0x80, CHR 0x94] @ '' could not extract text.''"

text \<open>The body of the \<open>try\<close> block. \<open>not raw_text\<close> holds for \<open>None\<close> and for the empty string.\<close>

definition process_single_resume_try ::
  "('s, 'w) env \<Rightarrow> file_storage \<Rightarrow> string \<Rightarrow> string \<Rightarrow> (candidate, 'w) io" where
  "process_single_resume_try e file candidate_name domain =
     bind_io (pdf_extract e file) (\<lambda>raw_text.
       case raw_text of
         None \<Rightarrow> raise_io (ValueError empty_pdf_message)
       | Some text \<Rightarrow>
           if text = [] then raise_io (ValueError empty_pdf_message)
           else
             bind_io (list_to_json e text) (\<lambda>structured.
             bind_io (extract_skill_from_resume e structured (SKILL_DICT e)) (\<lambda>skills'.
             bind_io (generate_analysis_metrics e skills') (\<lambda>metrics'.
             bind_io (calculate_skill_strength e metrics') (\<lambda>scoring'.
             bind_io (subscript (scoring_skill_strength_score scoring')
                        ''skill_strength_score'') (\<lambda>score'.
             bind_io (get_recruiter_note e (GEMINI_KEY e) candidate_name domain skills' score')
               (\<lambda>note.
             bind_io (subscript (scoring_weighted_sum scoring') ''weighted_sum'') (\<lambda>ws.
             bind_io (subscript (scoring_net_skills scoring') ''net_skills'') (\<lambda>ns.
               return_io
                 \<lparr>name = Some candidate_name,
                  score = Some score',
                  weighted_sum = Some ws,
                  net_skills = Some ns,
                  metrics = Some metrics',
                  skills = Some skills',
                  recruiter_note = Some note,
                  error = None,
                  rank = None\<rparr>)))))))))"

text \<open>The dict of the \<open>except\<close> branch.\<close>

definition failure_record :: "string \<Rightarrow> py_exception \<Rightarrow> candidate" where
  "failure_record candidate_name exc =
     \<lparr>name = Some candidate_name,
      score = Some 0,
      weighted_sum = Some 0,
      net_skills = Some 0,
      metrics = Some [],
      skills = Some [],
      recruiter_note = Some (''Processing failed: '' @ str_exception exc),
      error = Some (str_exception exc),
      rank = None\<rparr>"

definition process_single_resume ::
  "('s, 'w) env \<Rightarrow> file_storage \<Rightarrow> string \<Rightarrow> string \<Rightarrow> (candidate, 'w) io" where
  "process_single_resume e file candidate_name domain =
     try_except (process_single_resume_try e file candidate_name domain)
       (\<lambda>exc. return_io (failure_record candidate_name exc))"

subsection \<open>Functions of the standard library used by the route\<close>

text \<open>\<open>s.replace(old, new)\<close> for one-character \<open>old\<close> and \<open>new\<close>.\<close>

definition replace_char :: "string \<Rightarrow> char \<Rightarrow> char \<Rightarrow> string" where
  "replace_char s old new = map (\<lambda>c. if c = old then new else c) s"

text \<open>
  \<open>os.path.splitext\<close> as \<open>posixpath\<close> has it: the extension starts at the last dot
  of the last path component, and leading dots of that component do not start one.
  \<open>rfind\<close> returns \<open>-1\<close> when the character does not occur.
\<close>

definition rfind :: "string \<Rightarrow> char \<Rightarrow> int" where
  "rfind p c =
     (case filter (\<lambda>i. p ! i = c) (rev [0..<length p]) of [] \<Rightarrow> - 1 | i # _ \<Rightarrow> int i)"

function skip_leading_dots :: "string \<Rightarrow> nat \<Rightarrow> nat \<Rightarrow> string \<times> string" where
  "skip_leading_dots p filenameIndex dotIndex =
     (if filenameIndex < dotIndex then
        if take 1 (drop filenameIndex p) \<noteq> ''.'' then (take dotIndex p, drop dotIndex p)
        else skip_leading_dots p (Suc filenameIndex) dotIndex
      else (p, []))"
  by pat_completeness auto
termination
  by (relation "measure (\<lambda>(p, filenameIndex, dotIndex). dotIndex - filenameIndex)") auto

declare skip_leading_dots.simps [simp del]

definition splitext :: "string \<Rightarrow> string \<times> string" where
  "splitext p =
     (let sepIndex = rfind p CHR ''/'';
          dotIndex = rfind p CHR ''.''
      in if dotIndex > sepIndex then skip_leading_dots p (nat (sepIndex + 1)) (nat dotIndex)
         else (p, []))"

subsection \<open>The route /api/leaderboard\<close>

text \<open>
  The loop \<open>for i, file in enumerate(valid_files)\<close>: the name is the stripped form value
  at the same position when there is one and it is not blank, otherwise it is derived from
  the filename; the record of the file is appended to \<open>candidates\<close>.
\<close>

fun process_files ::
  "str_methods \<Rightarrow> ('s, 'w) env \<Rightarrow> string list \<Rightarrow> string \<Rightarrow> nat \<Rightarrow> file_storage list
     \<Rightarrow> candidate list \<Rightarrow> (candidate list, 'w) io" where
  "process_files u e names domain i [] candidates = return_io candidates"
| "process_files u e names domain i (file # files) candidates =
     (let candidate_name =
            (if i < length names \<and> str_strip u (names ! i) \<noteq> [] then str_strip u (names ! i)
             else let stem = fst (splitext (filename file))
                  in str_title u
                       (replace_char (replace_char stem CHR ''_'' CHR '' '') CHR ''-'' CHR '' ''))
      in bind_io (process_single_resume e file candidate_name domain) (\<lambda>c.
           process_files u e names domain (Suc i) files (candidates @ [c])))"

text \<open>
  The records of \<open>candidates\<close> are fresh dict objects, one per file; the list object that
  holds them is the only list of the request. Record number \<open>k\<close> is placed at address \<open>k\<close>.
\<close>

definition empty_dict :: candidate where
  "empty_dict =
     \<lparr>name = None, score = None, weighted_sum = None, net_skills = None, metrics = None,
      skills = None, recruiter_note = None, error = None, rank = None\<rparr>"

definition new_store :: "candidate list \<Rightarrow> store \<times> addr" where
  "new_store cs =
     (\<lparr>dict_heap = (\<lambda>a. if a < length cs then cs ! a else empty_dict),
       list_heap = (\<lambda>_. [])(0 := [0..<length cs]),
       next_list = 1\<rparr>, 0)"

text \<open>The two JSON bodies the route can answer with; the error body comes with its status code.\<close>

record leaderboard_body =
  resp_status :: string
  resp_domain :: string
  resp_total_candidates :: int
  resp_summary :: summary
  resp_leaderboard :: "candidate list"

datatype response =
    ErrorResponse string nat
  | LeaderboardResponse leaderboard_body

text \<open>
  \<open>files\<close> and \<open>names\<close> are the two form lists, \<open>domain_field\<close> the form value of
  \<open>domain\<close> when the request has one.
\<close>

definition leaderboard ::
  "str_methods \<Rightarrow> float_ops \<Rightarrow> ('s, 'w) env \<Rightarrow> file_storage list \<Rightarrow> string list
     \<Rightarrow> string option \<Rightarrow> (response, 'w) io" where
  "leaderboard u fl e files names domain_field =
     (let domain =
            str_strip u (case domain_field of None \<Rightarrow> ''Software Engineering'' | Some d \<Rightarrow> d);
          valid_files = filter (\<lambda>f. filename f \<noteq> [] \<and> filename f \<noteq> []) files
      in if valid_files = [] then return_io (ErrorResponse ''No PDF files provided.'' 400)
         else
           bind_io (process_files u e names domain 0 valid_files []) (\<lambda>candidates.
             let (s0, candidates_ref) = new_store candidates;
                 (s1, ranked) = get_domain_leaderboard u s0 candidates_ref
             in case build_leaderboard_summary fl s1 ranked of
                  Inl exc \<Rightarrow> raise_io exc
                | Inr summary' \<Rightarrow>
                    return_io
                      (LeaderboardResponse
                         \<lparr>resp_status = ''success'',
                          resp_domain = domain,
                          resp_total_candidates = int (length (list_heap s1 ranked)),
                          resp_summary = summary',
                          resp_leaderboard = records_of s1 ranked\<rparr>)))"

section \<open>What the specification calls the base name\<close>

text \<open>
  The base name of a path is its last component, the part after the last slash
  (\<open>os.path.basename\<close>); "the base name without its extension" is that component
  without its extension.
\<close>

definition basename :: "string \<Rightarrow> string" where
  "basename p = drop (nat (rfind p CHR ''/'' + 1)) p"

definition spec_base_name_without_extension :: "string \<Rightarrow> string" where
  "spec_base_name_without_extension p = fst (splitext (basename p))"

section \<open>Example inputs\<close>

text \<open>A record as a successful run produces it, with a given name and score.\<close>

definition example_record :: "string \<Rightarrow> real \<Rightarrow> candidate" where
  "example_record n x =
     \<lparr>name = Some n, score = Some x, weighted_sum = Some x, net_skills = Some 1,
      metrics = Some [(''total_strong_skills'', 1)], skills = Some [],
      recruiter_note = Some ''note'', error = None, rank = None\<rparr>"

text \<open>
  The batch of the ranking scenario: Bob with 10.0, Alice and Zed with 25.0, in this
  order in the list object at address 0.
\<close>

definition scenario_store :: store where
  "scenario_store =
     \<lparr>dict_heap = (\<lambda>_. empty_dict)
        (0 := example_record ''Bob'' 10, 1 := example_record ''Alice'' 25,
         2 := example_record ''Zed'' 25),
      list_heap = (\<lambda>_. [])(0 := [0, 1, 2]),
      next_list = 1\<rparr>"

text \<open>
  A batch in which the input order is not the ranked order, the names differ in case, one
  record has no \<open>name\<close> key and one has no \<open>score\<close> key: bob, Zed and Alice with 25.0,
  a nameless record with 25.0, Dan with 0.0 and Carl without a score.
\<close>

definition mixed_store :: store where
  "mixed_store =
     \<lparr>dict_heap = (\<lambda>_. empty_dict)
        (0 := example_record ''bob'' 25, 1 := example_record ''Zed'' 25,
         2 := example_record ''Alice'' 25,
         3 := (example_record [] 25)\<lparr>name := None\<rparr>,
         4 := example_record ''Dan'' 0,
         5 := (example_record ''Carl'' 0)\<lparr>score := None\<rparr>),
      list_heap = (\<lambda>_. [])(0 := [0, 1, 2, 3, 4, 5]),
      next_list = 1\<rparr>"

text \<open>A list object that holds the same dict object twice, as \<open>[d, d]\<close> does.\<close>

definition alias_store :: store where
  "alias_store =
     \<lparr>dict_heap = (\<lambda>_. empty_dict)(0 := example_record ''Bob'' 10),
      list_heap = (\<lambda>_. [])(0 := [0, 0]),
      next_list = 1\<rparr>"

text \<open>
  Collaborators that always succeed and count their calls in the world: the extracted text
  is the content of the upload, every resume gets the same skills and the score 7.
\<close>

definition example_env :: "(string, nat) env" where
  "example_env =
     \<lparr>pdf_extract = (\<lambda>f w. (Inr (Some (stream f)), Suc w)),
      list_to_json = (\<lambda>text w. (Inr text, Suc w)),
      SKILL_DICT = [],
      extract_skill_from_resume = (\<lambda>structured d w. (Inr [(''languages'', [''python''])], Suc w)),
      generate_analysis_metrics = (\<lambda>sk w. (Inr [(''total_strong_skills'', 1)], Suc w)),
      calculate_skill_strength =
        (\<lambda>m w. (Inr \<lparr>scoring_skill_strength_score = Some 7, scoring_weighted_sum = Some 3,
                       scoring_net_skills = Some 2\<rparr>, Suc w)),
      get_recruiter_note = (\<lambda>key n d sk sc w. (Inr (''A note on '' @ n), Suc w)),
      GEMINI_KEY = None\<rparr>"

text \<open>The same collaborators, with a text extraction that is interrupted from the keyboard.\<close>

definition interrupted_env :: "(string, nat) env" where
  "interrupted_env = example_env\<lparr>pdf_extract := (\<lambda>f w. (Inl KeyboardInterrupt, w))\<rparr>"

text \<open>
  Uploads: one without extractable text, one without a filename, one complete, and one
  whose filename has a directory part.
\<close>

definition empty_upload :: file_storage where
  "empty_upload = \<lparr>filename = ''JOHN_doe-smith.pdf'', stream = []\<rparr>"

definition unnamed_upload :: file_storage where
  "unnamed_upload = \<lparr>filename = [], stream = ''text''\<rparr>"

definition full_upload :: file_storage where
  "full_upload = \<lparr>filename = ''cv.pdf'', stream = ''text''\<rparr>"

definition nested_upload :: file_storage where
  "nested_upload = \<lparr>filename = ''up/john_doe.pdf'', stream = ''text''\<rparr>"

section \<open>Properties of the ranking\<close>

lemma assign_ranks_list_heap: "list_heap (assign_ranks s r as) = list_heap s"
  by (induction as arbitrary: s r) simp_all

lemma assign_ranks_next_list: "next_list (assign_ranks s r as) = next_list s"
  by (induction as arbitrary: s r) simp_all

lemma assign_ranks_only_rank:
  "(dict_heap (assign_ranks s r as) a)\<lparr>rank := x\<rparr> = (dict_heap s a)\<lparr>rank := x\<rparr>"
  by (induction as arbitrary: s r) simp_all

lemma assign_ranks_other:
  "a \<notin> set as \<Longrightarrow> dict_heap (assign_ranks s r as) a = dict_heap s a"
  by (induction as arbitrary: s r) auto

lemma assign_ranks_nth:
  "distinct as \<Longrightarrow> i < length as \<Longrightarrow>
     rank (dict_heap (assign_ranks s r as) (as ! i)) = Some (r + int i)"
proof (induction as arbitrary: s r i)
  case Nil
  then show ?case by simp
next
  case (Cons a as)
  show ?case
  proof (cases i)
    case 0
    then show ?thesis using Cons.prems by (simp add: assign_ranks_other)
  next
    case (Suc k)
    then show ?thesis using Cons.prems Cons.IH [of k] by simp
  qed
qed

lemma only_rank_fields:
  assumes "c\<lparr>rank := x\<rparr> = d\<lparr>rank := x\<rparr>"
  shows "name c = name d \<and> score c = score d \<and> weighted_sum c = weighted_sum d \<and>
    net_skills c = net_skills d \<and> metrics c = metrics d \<and> skills c = skills d \<and>
    recruiter_note c = recruiter_note d \<and> error c = error d"
proof -
  have "name (c\<lparr>rank := x\<rparr>) = name (d\<lparr>rank := x\<rparr>)"
    and "score (c\<lparr>rank := x\<rparr>) = score (d\<lparr>rank := x\<rparr>)"
    and "weighted_sum (c\<lparr>rank := x\<rparr>) = weighted_sum (d\<lparr>rank := x\<rparr>)"
    and "net_skills (c\<lparr>rank := x\<rparr>) = net_skills (d\<lparr>rank := x\<rparr>)"
    and "metrics (c\<lparr>rank := x\<rparr>) = metrics (d\<lparr>rank := x\<rparr>)"
    and "skills (c\<lparr>rank := x\<rparr>) = skills (d\<lparr>rank := x\<rparr>)"
    and "recruiter_note (c\<lparr>rank := x\<rparr>) = recruiter_note (d\<lparr>rank := x\<rparr>)"
    and "error (c\<lparr>rank := x\<rparr>) = error (d\<lparr>rank := x\<rparr>)"
    using assms by simp_all
  then show ?thesis by simp
qed

text \<open>What a call returns, in one place: the new list object, the frame, the ranks.\<close>

lemma get_domain_leaderboard_eq:
  "get_domain_leaderboard u s l =
     (assign_ranks
        (s\<lparr>list_heap := (list_heap s)
              (next_list s := sort_key (\<lambda>a. leaderboard_key u (dict_heap s a)) (list_heap s l)),
           next_list := Suc (next_list s)\<rparr>)
        1 (sort_key (\<lambda>a. leaderboard_key u (dict_heap s a)) (list_heap s l)),
      next_list s)"
  by (simp add: get_domain_leaderboard_def alloc_list_def)

lemma ranked_is_fresh:
  "get_domain_leaderboard u s l = (s', r) \<Longrightarrow> r = next_list s"
  by (simp add: get_domain_leaderboard_eq)

lemma ranked_list_heap:
  "get_domain_leaderboard u s l = (s', r) \<Longrightarrow>
     list_heap s' r = sort_key (\<lambda>a. leaderboard_key u (dict_heap s a)) (list_heap s l)"
  by (auto simp add: get_domain_leaderboard_eq assign_ranks_list_heap)

lemma other_list_heap:
  "get_domain_leaderboard u s l = (s', r) \<Longrightarrow> a \<noteq> next_list s \<Longrightarrow> list_heap s' a = list_heap s a"
  by (auto simp add: get_domain_leaderboard_eq assign_ranks_list_heap)

lemma ranked_only_rank:
  "get_domain_leaderboard u s l = (s', r) \<Longrightarrow>
     (dict_heap s' a)\<lparr>rank := x\<rparr> = (dict_heap s a)\<lparr>rank := x\<rparr>"
  by (auto simp add: get_domain_leaderboard_eq assign_ranks_only_rank)

lemma ranked_other_dict:
  "get_domain_leaderboard u s l = (s', r) \<Longrightarrow> a \<notin> set (list_heap s l) \<Longrightarrow>
     dict_heap s' a = dict_heap s a"
  by (auto simp add: get_domain_leaderboard_eq assign_ranks_other)

lemma ranked_rank_nth:
  "get_domain_leaderboard u s l = (s', r) \<Longrightarrow> distinct (list_heap s l) \<Longrightarrow>
     i < length (list_heap s l) \<Longrightarrow>
     rank (dict_heap s' (list_heap s' r ! i)) = Some (1 + int i)"
  by (auto simp add: get_domain_leaderboard_eq assign_ranks_list_heap assign_ranks_nth)

lemma ranked_fields:
  assumes "get_domain_leaderboard u s l = (s', r)"
  shows "name (dict_heap s' a) = name (dict_heap s a) \<and>
    score (dict_heap s' a) = score (dict_heap s a) \<and>
    weighted_sum (dict_heap s' a) = weighted_sum (dict_heap s a) \<and>
    net_skills (dict_heap s' a) = net_skills (dict_heap s a) \<and>
    metrics (dict_heap s' a) = metrics (dict_heap s a) \<and>
    skills (dict_heap s' a) = skills (dict_heap s a) \<and>
    recruiter_note (dict_heap s' a) = recruiter_note (dict_heap s a) \<and>
    error (dict_heap s' a) = error (dict_heap s a)"
  by (rule only_rank_fields [OF ranked_only_rank [OF assms, where x = None]])

lemma ranked_key:
  "get_domain_leaderboard u s l = (s', r) \<Longrightarrow>
     leaderboard_key u (dict_heap s' a) = leaderboard_key u (dict_heap s a)"
  using ranked_fields [of u s l s' r a]
  by (simp add: leaderboard_key_def get_score_def get_name_def)

lemma ranked_sorted:
  assumes "get_domain_leaderboard u s l = (s', r)"
  shows "sorted (map (leaderboard_key u) (records_of s' r))"
proof -
  have "map (leaderboard_key u) (records_of s' r) =
      map (\<lambda>a. leaderboard_key u (dict_heap s a)) (list_heap s' r)"
    by (simp add: records_of_def ranked_key [OF assms] comp_def)
  then show ?thesis
    by (simp add: ranked_list_heap [OF assms])
qed

lemma key_le_iff:
  "leaderboard_key u c \<le> leaderboard_key u d \<longleftrightarrow>
     get_score d < get_score c \<or>
     (get_score c = get_score d \<and> str_lower u (get_name c) \<le> str_lower u (get_name d))"
  by (auto simp add: leaderboard_key_def)


text \<open>Sorting depends on the key only at the elements of the list.\<close>

lemma insort_key_cong_set:
  "f x = g x \<Longrightarrow> (\<forall>y\<in>set ys. f y = g y) \<Longrightarrow> insort_key f x ys = insort_key g x ys"
  by (induction ys) simp_all

lemma sort_key_cong_set:
  "(\<forall>x\<in>set xs. f x = g x) \<Longrightarrow> sort_key f xs = sort_key g xs"
proof (induction xs)
  case Nil
  then show ?case by simp
next
  case (Cons x xs)
  then have "sort_key f xs = sort_key g xs"
    by simp
  moreover have "insort_key f x (sort_key g xs) = insort_key g x (sort_key g xs)"
    using Cons.prems by (intro insort_key_cong_set) simp_all
  ultimately show ?case
    by (simp add: sort_key_def)
qed

lemma get_domain_leaderboard_cong:
  assumes "\<forall>a\<in>set (list_heap s l).
      str_lower u (get_name (dict_heap s a)) = str_lower v (get_name (dict_heap s a))"
  shows "get_domain_leaderboard u s l = get_domain_leaderboard v s l"
proof -
  have "sort_key (\<lambda>a. leaderboard_key u (dict_heap s a)) (list_heap s l) =
      sort_key (\<lambda>a. leaderboard_key v (dict_heap s a)) (list_heap s l)"
    using assms by (intro sort_key_cong_set) (simp add: leaderboard_key_def)
  then show ?thesis
    by (simp add: get_domain_leaderboard_eq)
qed

lemma get_domain_leaderboard_ascii:
  assumes "agrees_on_ascii u"
    and "\<forall>a\<in>set (list_heap s l). is_ascii (get_name (dict_heap s a))"
  shows "get_domain_leaderboard u s l = get_domain_leaderboard ascii_methods s l"
  using assms
  by (intro get_domain_leaderboard_cong) (simp add: agrees_on_ascii_def ascii_methods_def)

lemma agrees_on_ascii_ascii_methods: "agrees_on_ascii ascii_methods"
  by (simp add: agrees_on_ascii_def ascii_methods_def)

lemma scenario_store_ascii:
  "\<forall>a\<in>set (list_heap scenario_store 0). is_ascii (get_name (dict_heap scenario_store a))"
  by code_simp

lemma mixed_store_ascii:
  "\<forall>a\<in>set (list_heap mixed_store 0). is_ascii (get_name (dict_heap mixed_store a))"
  by code_simp

text \<open>
  C1: in the returned list a record never has a higher score than a record before it,
  and of two records with equal scores the one with the smaller lower-cased name comes
  first; a missing score counts as 0 and a missing name as the empty string, and no
  stored name changes. With string methods that treat ASCII as Python does, the scores
  10, 25, 25 of Bob, Alice and Zed give the order Alice, Zed, Bob, and the batch
  bob, Zed, Alice, a nameless record (all 25), Dan (0) and Carl (no score) gives the
  nameless record, Alice, bob, Zed, Carl, Dan.
\<close>

theorem get_domain_leaderboard_order:
  assumes "get_domain_leaderboard u s candidates = (s', ranked)"
  shows "(\<forall>i j. i < j \<and> j < length (records_of s' ranked) \<longrightarrow>
            (case score (records_of s' ranked ! j) of None \<Rightarrow> 0 | Some x \<Rightarrow> x)
              \<le> (case score (records_of s' ranked ! i) of None \<Rightarrow> 0 | Some x \<Rightarrow> x) \<and>
            ((case score (records_of s' ranked ! i) of None \<Rightarrow> 0 | Some x \<Rightarrow> x)
               = (case score (records_of s' ranked ! j) of None \<Rightarrow> 0 | Some x \<Rightarrow> x) \<longrightarrow>
             str_lower u (case name (records_of s' ranked ! i) of None \<Rightarrow> [] | Some n \<Rightarrow> n)
               \<le> str_lower u
                    (case name (records_of s' ranked ! j) of None \<Rightarrow> [] | Some n \<Rightarrow> n))) \<and>
         (\<forall>a. name (dict_heap s' a) = name (dict_heap s a)) \<and>
         (agrees_on_ascii u \<longrightarrow>
            map name
              (records_of (fst (get_domain_leaderboard u scenario_store 0))
                 (snd (get_domain_leaderboard u scenario_store 0))) =
              [Some ''Alice'', Some ''Zed'', Some ''Bob''] \<and>
            map name
              (records_of (fst (get_domain_leaderboard u mixed_store 0))
                 (snd (get_domain_leaderboard u mixed_store 0))) =
              [None, Some ''Alice'', Some ''bob'', Some ''Zed'', Some ''Carl'', Some ''Dan''])"
proof -
  let ?rs = "records_of s' ranked"
  have srt: "sorted (map (leaderboard_key u) ?rs)"
    by (rule ranked_sorted [OF assms])
  have ord: "get_score (?rs ! j) \<le> get_score (?rs ! i) \<and>
      (get_score (?rs ! i) = get_score (?rs ! j) \<longrightarrow>
         str_lower u (get_name (?rs ! i)) \<le> str_lower u (get_name (?rs ! j)))"
    if "i < j" "j < length ?rs" for i j
  proof -
    have "map (leaderboard_key u) ?rs ! i \<le> map (leaderboard_key u) ?rs ! j"
      using srt that by (simp add: sorted_iff_nth_mono)
    then have "leaderboard_key u (?rs ! i) \<le> leaderboard_key u (?rs ! j)"
      using that by simp
    then show ?thesis
      by (auto simp add: key_le_iff)
  qed
  have nm: "\<forall>a. name (dict_heap s' a) = name (dict_heap s a)"
    using ranked_fields [OF assms] by simp
  have scen: "map name
        (records_of (fst (get_domain_leaderboard u scenario_store 0))
           (snd (get_domain_leaderboard u scenario_store 0))) =
        [Some ''Alice'', Some ''Zed'', Some ''Bob''] \<and>
      map name
        (records_of (fst (get_domain_leaderboard u mixed_store 0))
           (snd (get_domain_leaderboard u mixed_store 0))) =
        [None, Some ''Alice'', Some ''bob'', Some ''Zed'', Some ''Carl'', Some ''Dan'']"
    if u: "agrees_on_ascii u"
  proof -
    have a: "map name
        (records_of (fst (get_domain_leaderboard ascii_methods scenario_store 0))
           (snd (get_domain_leaderboard ascii_methods scenario_store 0))) =
        [Some ''Alice'', Some ''Zed'', Some ''Bob'']"
      by code_simp
    have b: "map name
        (records_of (fst (get_domain_leaderboard ascii_methods mixed_store 0))
           (snd (get_domain_leaderboard ascii_methods mixed_store 0))) =
        [None, Some ''Alice'', Some ''bob'', Some ''Zed'', Some ''Carl'', Some ''Dan'']"
      by code_simp
    show ?thesis
      using a b
      by (simp only: get_domain_leaderboard_ascii [OF u scenario_store_ascii]
          get_domain_leaderboard_ascii [OF u mixed_store_ascii])
  qed
  show ?thesis
    using ord nm scen unfolding get_score_def get_name_def by blast
qed

theorem get_domain_leaderboard_order_witness:
  "get_domain_leaderboard ascii_methods mixed_store 0 =
     (fst (get_domain_leaderboard ascii_methods mixed_store 0),
      snd (get_domain_leaderboard ascii_methods mixed_store 0)) \<and>
   agrees_on_ascii ascii_methods \<and>
   (2::nat) < 3 \<and>
   3 < length (records_of (fst (get_domain_leaderboard ascii_methods mixed_store 0))
      (snd (get_domain_leaderboard ascii_methods mixed_store 0))) \<and>
   map name
     (records_of (fst (get_domain_leaderboard ascii_methods mixed_store 0))
        (snd (get_domain_leaderboard ascii_methods mixed_store 0))) =
     [None, Some ''Alice'', Some ''bob'', Some ''Zed'', Some ''Carl'', Some ''Dan''] \<and>
   str_lower ascii_methods ''bob'' \<le> str_lower ascii_methods ''Zed''"
proof -
  let ?rs = "records_of (fst (get_domain_leaderboard ascii_methods mixed_store 0))
      (snd (get_domain_leaderboard ascii_methods mixed_store 0))"
  have h: "get_domain_leaderboard ascii_methods mixed_store 0 =
     (fst (get_domain_leaderboard ascii_methods mixed_store 0),
      snd (get_domain_leaderboard ascii_methods mixed_store 0))"
    by simp
  have g: "agrees_on_ascii ascii_methods"
    by (rule agrees_on_ascii_ascii_methods)
  note inst = get_domain_leaderboard_order [OF h]
  have names: "map name ?rs =
      [None, Some ''Alice'', Some ''bob'', Some ''Zed'', Some ''Carl'', Some ''Dan'']"
    using inst g by blast
  have n: "3 < length ?rs"
    using arg_cong [OF names, of length] by simp
  have n2: "name (?rs ! 2) = Some ''bob''" and n3: "name (?rs ! 3) = Some ''Zed''"
    using arg_cong [OF names, of "\<lambda>xs. xs ! 2"] arg_cong [OF names, of "\<lambda>xs. xs ! 3"] n
    by simp_all
  have e: "score (?rs ! 2) = Some 25" "score (?rs ! 3) = Some 25"
    by code_simp+
  have ordall: "\<forall>i j. i < j \<and> j < length ?rs \<longrightarrow>
            (case score (?rs ! j) of None \<Rightarrow> 0 | Some x \<Rightarrow> x)
              \<le> (case score (?rs ! i) of None \<Rightarrow> 0 | Some x \<Rightarrow> x) \<and>
            ((case score (?rs ! i) of None \<Rightarrow> 0 | Some x \<Rightarrow> x)
               = (case score (?rs ! j) of None \<Rightarrow> 0 | Some x \<Rightarrow> x) \<longrightarrow>
             str_lower ascii_methods (case name (?rs ! i) of None \<Rightarrow> [] | Some n \<Rightarrow> n)
               \<le> str_lower ascii_methods
                    (case name (?rs ! j) of None \<Rightarrow> [] | Some n \<Rightarrow> n))"
    using inst by (rule conjunct1)
  note o23 = ordall [THEN spec [where x = "2::nat"], THEN spec [where x = "3::nat"]]
  have "str_lower ascii_methods ''bob'' \<le> str_lower ascii_methods ''Zed''"
    using o23 n by (simp add: e n2 n3)
  then show ?thesis
    using h g n names by simp
qed

text \<open>
  C2, as the code has it: when no dict object occurs twice in the list, the ranks of the
  returned records are 1, 2, ..., N in this order, whatever the scores are.
\<close>

theorem get_domain_leaderboard_ranks:
  assumes "get_domain_leaderboard u s candidates = (s', ranked)"
    and "distinct (list_heap s candidates)"
  shows "map rank (records_of s' ranked) = map Some [1..int (length (list_heap s candidates))]"
proof (rule nth_equalityI)
  have len: "length (list_heap s' ranked) = length (list_heap s candidates)"
    by (simp add: ranked_list_heap [OF assms(1)])
  show "length (map rank (records_of s' ranked)) =
      length (map Some [1..int (length (list_heap s candidates))])"
    by (simp add: records_of_def len)
  fix i
  assume "i < length (map rank (records_of s' ranked))"
  then have i: "i < length (list_heap s candidates)"
    by (simp add: records_of_def len)
  have "map rank (records_of s' ranked) ! i = rank (dict_heap s' (list_heap s' ranked ! i))"
    using i by (simp add: records_of_def len)
  also have "\<dots> = Some (1 + int i)"
    by (rule ranked_rank_nth [OF assms i])
  also have "\<dots> = map Some [1..int (length (list_heap s candidates))] ! i"
    using i by simp
  finally show "map rank (records_of s' ranked) ! i =
      map Some [1..int (length (list_heap s candidates))] ! i" .
qed

theorem get_domain_leaderboard_ranks_witness:
  "get_domain_leaderboard ascii_methods scenario_store 0 =
     (fst (get_domain_leaderboard ascii_methods scenario_store 0), snd (get_domain_leaderboard ascii_methods scenario_store 0)) \<and>
   distinct (list_heap scenario_store 0) \<and>
   map rank (records_of (fst (get_domain_leaderboard ascii_methods scenario_store 0))
      (snd (get_domain_leaderboard ascii_methods scenario_store 0))) = [Some 1, Some 2, Some 3]"
proof -
  have h: "get_domain_leaderboard ascii_methods scenario_store 0 =
     (fst (get_domain_leaderboard ascii_methods scenario_store 0), snd (get_domain_leaderboard ascii_methods scenario_store 0))"
    by simp
  have d: "distinct (list_heap scenario_store 0)"
    by (simp add: scenario_store_def)
  have u: "map Some [1..int (length (list_heap scenario_store 0))] = [Some 1, Some 2, Some 3]"
    by code_simp
  show ?thesis
    using h d get_domain_leaderboard_ranks [OF h d] u by simp
qed

theorem get_domain_leaderboard_ranks_counterexample:
  "list_heap alias_store 0 = [0, 0] \<and>
   map rank (records_of (fst (get_domain_leaderboard ascii_methods alias_store 0))
      (snd (get_domain_leaderboard ascii_methods alias_store 0))) = [Some 2, Some 2] \<and>
   map rank (records_of (fst (get_domain_leaderboard ascii_methods alias_store 0))
      (snd (get_domain_leaderboard ascii_methods alias_store 0))) \<noteq> map Some [1..2]"
  by code_simp

text \<open>
  C3: the returned list holds the same record objects as the input list, each as often as
  the input does, so the length and the names are kept; on every record of the store all
  fields but \<open>rank\<close> are as before, and a record outside the list is not written at all.
\<close>

theorem get_domain_leaderboard_frame:
  assumes "get_domain_leaderboard u s candidates = (s', ranked)"
  shows "mset (list_heap s' ranked) = mset (list_heap s candidates) \<and>
         length (records_of s' ranked) = length (records_of s candidates) \<and>
         mset (map name (records_of s' ranked)) = mset (map name (records_of s candidates)) \<and>
         set (map name (records_of s' ranked)) = set (map name (records_of s candidates)) \<and>
         (\<forall>a. name (dict_heap s' a) = name (dict_heap s a) \<and>
              score (dict_heap s' a) = score (dict_heap s a) \<and>
              weighted_sum (dict_heap s' a) = weighted_sum (dict_heap s a) \<and>
              net_skills (dict_heap s' a) = net_skills (dict_heap s a) \<and>
              metrics (dict_heap s' a) = metrics (dict_heap s a) \<and>
              skills (dict_heap s' a) = skills (dict_heap s a) \<and>
              recruiter_note (dict_heap s' a) = recruiter_note (dict_heap s a) \<and>
              error (dict_heap s' a) = error (dict_heap s a)) \<and>
         (\<forall>a. a \<notin> set (list_heap s candidates) \<longrightarrow> dict_heap s' a = dict_heap s a)"
proof -
  have ms: "mset (list_heap s' ranked) = mset (list_heap s candidates)"
    by (simp add: ranked_list_heap [OF assms])
  have len: "length (records_of s' ranked) = length (records_of s candidates)"
    using ms by (simp add: records_of_def) (metis size_mset)
  have nm_fun: "(\<lambda>a. name (dict_heap s' a)) = (\<lambda>a. name (dict_heap s a))"
    using ranked_fields [OF assms] by auto
  have "mset (map name (records_of s' ranked)) =
      image_mset (\<lambda>a. name (dict_heap s' a)) (mset (list_heap s' ranked))"
    by (simp add: records_of_def comp_def)
  also have "\<dots> = image_mset (\<lambda>a. name (dict_heap s a)) (mset (list_heap s candidates))"
    by (simp only: nm_fun ms)
  also have "\<dots> = mset (map name (records_of s candidates))"
    by (simp add: records_of_def comp_def)
  finally have nms: "mset (map name (records_of s' ranked)) =
      mset (map name (records_of s candidates))" .
  have nset: "set (map name (records_of s' ranked)) = set (map name (records_of s candidates))"
    using nms by (metis set_mset_mset)
  have other: "\<forall>a. a \<notin> set (list_heap s candidates) \<longrightarrow> dict_heap s' a = dict_heap s a"
    using ranked_other_dict [OF assms] by blast
  show ?thesis
    using ms len nms nset ranked_fields [OF assms] other by blast
qed

theorem get_domain_leaderboard_frame_witness:
  "get_domain_leaderboard ascii_methods scenario_store 0 =
     (fst (get_domain_leaderboard ascii_methods scenario_store 0), snd (get_domain_leaderboard ascii_methods scenario_store 0)) \<and>
   (7::nat) \<notin> set (list_heap scenario_store 0) \<and>
   dict_heap (fst (get_domain_leaderboard ascii_methods scenario_store 0)) 7 = dict_heap scenario_store 7 \<and>
   score (dict_heap (fst (get_domain_leaderboard ascii_methods scenario_store 0)) 1) = Some 25 \<and>
   length (records_of (fst (get_domain_leaderboard ascii_methods scenario_store 0))
      (snd (get_domain_leaderboard ascii_methods scenario_store 0))) = 3"
proof -
  have h: "get_domain_leaderboard ascii_methods scenario_store 0 =
     (fst (get_domain_leaderboard ascii_methods scenario_store 0), snd (get_domain_leaderboard ascii_methods scenario_store 0))"
    by simp
  have m: "(7::nat) \<notin> set (list_heap scenario_store 0)"
    by (simp add: scenario_store_def)
  have sc: "score (dict_heap scenario_store 1) = Some 25"
    by (simp add: scenario_store_def example_record_def)
  have l: "length (records_of scenario_store 0) = 3"
    by (simp add: scenario_store_def records_of_def)
  show ?thesis
    using h m sc l get_domain_leaderboard_frame [OF h] by simp
qed

text \<open>
  C7: ranking the returned list again returns a list with the same record objects in the
  same order, and the records agree with those of the first call in every field other
  than \<open>rank\<close>.
\<close>

theorem get_domain_leaderboard_idempotent:
  assumes "get_domain_leaderboard u s candidates = (s', ranked)"
    and "get_domain_leaderboard u s' ranked = (s'', ranked')"
  shows "list_heap s'' ranked' = list_heap s' ranked \<and>
         map (\<lambda>c. c\<lparr>rank := None\<rparr>) (records_of s'' ranked') =
           map (\<lambda>c. c\<lparr>rank := None\<rparr>) (records_of s' ranked)"
proof -
  have "sorted (map (\<lambda>a. leaderboard_key u (dict_heap s' a)) (list_heap s' ranked))"
    using ranked_sorted [OF assms(1)] by (simp add: records_of_def comp_def)
  then have "sort_key (\<lambda>a. leaderboard_key u (dict_heap s' a)) (list_heap s' ranked) =
      list_heap s' ranked"
    by (rule sort_key_id_if_sorted)
  then have same: "list_heap s'' ranked' = list_heap s' ranked"
    by (simp add: ranked_list_heap [OF assms(2)])
  have "(\<lambda>a. (dict_heap s'' a)\<lparr>rank := None\<rparr>) = (\<lambda>a. (dict_heap s' a)\<lparr>rank := None\<rparr>)"
    using ranked_only_rank [OF assms(2)] by auto
  then have "map (\<lambda>c. c\<lparr>rank := None\<rparr>) (records_of s'' ranked') =
      map (\<lambda>c. c\<lparr>rank := None\<rparr>) (records_of s' ranked)"
    by (simp add: records_of_def same comp_def)
  then show ?thesis
    using same by simp
qed

theorem get_domain_leaderboard_idempotent_witness:
  "get_domain_leaderboard ascii_methods scenario_store 0 =
     (fst (get_domain_leaderboard ascii_methods scenario_store 0), snd (get_domain_leaderboard ascii_methods scenario_store 0)) \<and>
   get_domain_leaderboard ascii_methods (fst (get_domain_leaderboard ascii_methods scenario_store 0)) 1 =
     (fst (get_domain_leaderboard ascii_methods (fst (get_domain_leaderboard ascii_methods scenario_store 0)) 1), 2) \<and>
   list_heap (fst (get_domain_leaderboard ascii_methods (fst (get_domain_leaderboard ascii_methods scenario_store 0)) 1)) 2 =
     [1, 2, 0]"
proof -
  have r: "snd (get_domain_leaderboard ascii_methods scenario_store 0) = 1"
    by code_simp
  have h1: "get_domain_leaderboard ascii_methods scenario_store 0 =
     (fst (get_domain_leaderboard ascii_methods scenario_store 0), 1)"
    using r by (metis prod.collapse)
  have r2: "snd (get_domain_leaderboard ascii_methods (fst (get_domain_leaderboard ascii_methods scenario_store 0)) 1) = 2"
    by code_simp
  have h2: "get_domain_leaderboard ascii_methods (fst (get_domain_leaderboard ascii_methods scenario_store 0)) 1 =
     (fst (get_domain_leaderboard ascii_methods (fst (get_domain_leaderboard ascii_methods scenario_store 0)) 1), 2)"
    using r2 by (metis prod.collapse)
  have l: "list_heap (fst (get_domain_leaderboard ascii_methods scenario_store 0)) 1 = [1, 2, 0]"
    by code_simp
  show ?thesis
    using h1 h2 l r get_domain_leaderboard_idempotent [OF h1 h2] by simp
qed

text \<open>
  C10: the returned reference is a new list object. The list object of the caller, like
  every list object that existed before the call, holds the same references in the same
  order afterwards; the sorted order is that of the new object only.
\<close>

theorem get_domain_leaderboard_fresh_list:
  assumes "get_domain_leaderboard u s candidates = (s', ranked)"
    and "candidates < next_list s"
  shows "ranked \<noteq> candidates \<and>
         ranked = next_list s \<and>
         list_heap s' candidates = list_heap s candidates \<and>
         (\<forall>l. l < next_list s \<longrightarrow> list_heap s' l = list_heap s l) \<and>
         list_heap s' ranked =
           sort_key (\<lambda>a. leaderboard_key u (dict_heap s a)) (list_heap s candidates)"
proof -
  have r: "ranked = next_list s"
    by (rule ranked_is_fresh [OF assms(1)])
  have old: "\<forall>l. l < next_list s \<longrightarrow> list_heap s' l = list_heap s l"
    using other_list_heap [OF assms(1)] by auto
  show ?thesis
    using r old assms(2) ranked_list_heap [OF assms(1)] by auto
qed

theorem get_domain_leaderboard_fresh_list_witness:
  "get_domain_leaderboard ascii_methods scenario_store 0 =
     (fst (get_domain_leaderboard ascii_methods scenario_store 0), snd (get_domain_leaderboard ascii_methods scenario_store 0)) \<and>
   0 < next_list scenario_store \<and>
   snd (get_domain_leaderboard ascii_methods scenario_store 0) \<noteq> 0 \<and>
   list_heap (fst (get_domain_leaderboard ascii_methods scenario_store 0)) 0 = [0, 1, 2] \<and>
   list_heap (fst (get_domain_leaderboard ascii_methods scenario_store 0))
     (snd (get_domain_leaderboard ascii_methods scenario_store 0)) = [1, 2, 0]"
proof -
  have h: "get_domain_leaderboard ascii_methods scenario_store 0 =
     (fst (get_domain_leaderboard ascii_methods scenario_store 0), snd (get_domain_leaderboard ascii_methods scenario_store 0))"
    by simp
  have n: "0 < next_list scenario_store"
    by (simp add: scenario_store_def)
  have l: "list_heap scenario_store 0 = [0, 1, 2]"
    by (simp add: scenario_store_def)
  have e: "list_heap (fst (get_domain_leaderboard ascii_methods scenario_store 0))
     (snd (get_domain_leaderboard ascii_methods scenario_store 0)) = [1, 2, 0]"
    by code_simp
  show ?thesis
    using h n l e get_domain_leaderboard_fresh_list [OF h n] by simp
qed

section \<open>Properties of the summary\<close>

lemma tally_sums:
  "tally s d as =
     \<lparr>strong = strong d +
        (\<Sum>a\<leftarrow>as. dict_get (get_metrics (dict_heap s a)) ''total_strong_skills'' 0),
      medium = medium d +
        (\<Sum>a\<leftarrow>as. dict_get (get_metrics (dict_heap s a)) ''total_medium_skills'' 0),
      weak = weak d +
        (\<Sum>a\<leftarrow>as. dict_get (get_metrics (dict_heap s a)) ''total_weak_skills'' 0)\<rparr>"
  by (induction as arbitrary: d) (simp_all add: Let_def add.assoc)

text \<open>
  The summary of a list that is not empty: the length, the name of the first element as
  the list has it, the three sums of tier counts, and as average what the float
  operations of the interpreter return for \<open>round(sum(scores) / len(scores), 4)\<close>.
\<close>

lemma build_leaderboard_summary_eq:
  assumes "list_heap s l \<noteq> []"
  shows "build_leaderboard_summary fl s l =
     Inr \<lparr>total_candidates = int (length (records_of s l)),
          top_candidate = name (records_of s l ! 0),
          average_score =
            float_round fl
              (float_truediv fl (float_sum fl (map get_score (records_of s l)))
                 (int (length (records_of s l)))) 4,
          score_distribution =
            \<lparr>strong = (\<Sum>c\<leftarrow>records_of s l. dict_get (get_metrics c) ''total_strong_skills'' 0),
             medium = (\<Sum>c\<leftarrow>records_of s l. dict_get (get_metrics c) ''total_medium_skills'' 0),
             weak = (\<Sum>c\<leftarrow>records_of s l. dict_get (get_metrics c) ''total_weak_skills'' 0)\<rparr>\<rparr>"
proof -
  have len: "0 < length (list_heap s l)"
    using assms by simp
  have div: "py_truediv fl (float_sum fl (map (\<lambda>a. get_score (dict_heap s a)) (list_heap s l)))
       (int (length (map (\<lambda>a. get_score (dict_heap s a)) (list_heap s l)))) =
     Inr (float_truediv fl (float_sum fl (map get_score (records_of s l)))
            (int (length (records_of s l))))"
    using len by (simp add: py_truediv_def records_of_def comp_def)
  have idx: "py_index (list_heap s l) 0 = Inr (list_heap s l ! 0)"
    using len by (simp add: py_index_def)
  have top: "name (dict_heap s (list_heap s l ! 0)) = name (records_of s l ! 0)"
    using len by (simp add: records_of_def)
  show ?thesis
    unfolding build_leaderboard_summary_def Let_def
    using assms
    by (simp only: if_False div idx sum.case tally_sums top)
       (simp add: records_of_def comp_def)
qed

lemma build_leaderboard_summary_returns: "\<exists>sm. build_leaderboard_summary fl s l = Inr sm"
proof (cases "list_heap s l = []")
  case True
  then show ?thesis by (simp add: build_leaderboard_summary_def)
next
  case False
  then show ?thesis using build_leaderboard_summary_eq [OF False] by blast
qed

text \<open>
  C6: for the empty list the summary is the zero summary; the division, which would raise
  on this input, is not reached. Ranking the empty list returns an empty list and leaves
  every record as it was.
\<close>

theorem empty_batch:
  assumes "list_heap s l = []"
  shows "build_leaderboard_summary fl s l =
     Inr \<lparr>total_candidates = 0, top_candidate = None, average_score = 0,
          score_distribution = \<lparr>strong = 0, medium = 0, weak = 0\<rparr>\<rparr> \<and>
   py_truediv fl (float_sum fl (map (\<lambda>a. get_score (dict_heap s a)) (list_heap s l)))
      (int (length (list_heap s l))) = Inl (ZeroDivisionError ''division by zero'') \<and>
   list_heap (fst (get_domain_leaderboard u s l)) (snd (get_domain_leaderboard u s l)) = [] \<and>
   dict_heap (fst (get_domain_leaderboard u s l)) = dict_heap s"
proof -
  have a: "build_leaderboard_summary fl s l =
     Inr \<lparr>total_candidates = 0, top_candidate = None, average_score = 0,
          score_distribution = \<lparr>strong = 0, medium = 0, weak = 0\<rparr>\<rparr>"
    using assms by (simp add: build_leaderboard_summary_def)
  have b: "py_truediv fl (float_sum fl (map (\<lambda>a. get_score (dict_heap s a)) (list_heap s l)))
      (int (length (list_heap s l))) = Inl (ZeroDivisionError ''division by zero'')"
    using assms by (simp add: py_truediv_def)
  have c: "list_heap (fst (get_domain_leaderboard u s l)) (snd (get_domain_leaderboard u s l)) = []"
    using assms by (simp add: get_domain_leaderboard_eq)
  have d: "dict_heap (fst (get_domain_leaderboard u s l)) = dict_heap s"
    using assms by (simp add: get_domain_leaderboard_eq)
  show ?thesis
    using a b c d by simp
qed

theorem empty_batch_witness:
  "\<forall>fl. list_heap (fst (new_store [])) (snd (new_store [])) = [] \<and>
     build_leaderboard_summary fl (fst (new_store [])) (snd (new_store [])) =
       Inr \<lparr>total_candidates = 0, top_candidate = None, average_score = 0,
            score_distribution = \<lparr>strong = 0, medium = 0, weak = 0\<rparr>\<rparr> \<and>
     list_heap
       (fst (get_domain_leaderboard ascii_methods (fst (new_store [])) (snd (new_store []))))
       (snd (get_domain_leaderboard ascii_methods (fst (new_store [])) (snd (new_store [])))) = []"
proof
  fix fl :: float_ops
  have h: "list_heap (fst (new_store [])) (snd (new_store [])) = []"
    by (simp add: new_store_def)
  show "list_heap (fst (new_store [])) (snd (new_store [])) = [] \<and>
     build_leaderboard_summary fl (fst (new_store [])) (snd (new_store [])) =
       Inr \<lparr>total_candidates = 0, top_candidate = None, average_score = 0,
            score_distribution = \<lparr>strong = 0, medium = 0, weak = 0\<rparr>\<rparr> \<and>
     list_heap
       (fst (get_domain_leaderboard ascii_methods (fst (new_store [])) (snd (new_store []))))
       (snd (get_domain_leaderboard ascii_methods (fst (new_store [])) (snd (new_store [])))) = []"
    using h empty_batch [OF h, of fl ascii_methods] by simp
qed

section \<open>Properties of the resume processor\<close>

lemma bind_io_Inr:
  "bind_io m f w = (Inr y, w') \<Longrightarrow> \<exists>x w1. m w = (Inr x, w1) \<and> f x w1 = (Inr y, w')"
  by (auto simp add: bind_io_def split: prod.splits sum.splits)

lemma bind_io_step: "m w = (Inr x, w1) \<Longrightarrow> bind_io m f w = f x w1"
  by (simp add: bind_io_def)

lemma bind_io_InrE:
  assumes "bind_io m f w = (Inr y, w')"
  obtains x w1 where "m w = (Inr x, w1)" and "f x w1 = (Inr y, w')"
  using bind_io_Inr [OF assms] by blast

lemma bind_io_InlE:
  assumes "bind_io m f w = (Inl exc, w')"
  obtains "m w = (Inl exc, w')" | x w1 where "m w = (Inr x, w1)" and "f x w1 = (Inl exc, w')"
  using assms by (auto simp add: bind_io_def split: prod.splits sum.splits)

lemma subscript_Inl:
  "subscript v k w = (Inl exc, w') \<Longrightarrow> is_Exception exc"
  by (auto simp add: subscript_def raise_io_def return_io_def KeyError_def split: option.splits)

text \<open>A record that the body of the \<open>try\<close> returns has the given name and no error.\<close>

lemma try_success:
  assumes "process_single_resume_try e file candidate_name domain w = (Inr c, w')"
  shows "name c = Some candidate_name \<and> error c = None \<and> rank c = None"
  using assms unfolding process_single_resume_try_def
  apply (elim bind_io_InrE)
  subgoal for raw_text w1
    apply (cases raw_text)
     apply (simp add: raise_io_def)
    apply (simp add: raise_io_def split: if_splits)
    apply (elim bind_io_InrE)
    apply (auto simp add: return_io_def)
    done
  done

text \<open>
  An exception of the body that is not an instance of \<open>Exception\<close> was raised by a
  collaborator: the body itself raises a \<open>ValueError\<close> or a \<open>KeyError\<close> only.
\<close>

lemma raises_pdf_extract:
  "raises_only_Exception e \<Longrightarrow> pdf_extract e f w = (Inl exc, w') \<Longrightarrow> is_Exception exc"
  unfolding raises_only_Exception_def by meson

lemma raises_list_to_json:
  "raises_only_Exception e \<Longrightarrow> list_to_json e t w = (Inl exc, w') \<Longrightarrow> is_Exception exc"
  unfolding raises_only_Exception_def by meson

lemma raises_extract_skill_from_resume:
  "raises_only_Exception e \<Longrightarrow> extract_skill_from_resume e d sd w = (Inl exc, w') \<Longrightarrow>
     is_Exception exc"
  unfolding raises_only_Exception_def by meson

lemma raises_generate_analysis_metrics:
  "raises_only_Exception e \<Longrightarrow> generate_analysis_metrics e sk w = (Inl exc, w') \<Longrightarrow>
     is_Exception exc"
  unfolding raises_only_Exception_def by meson

lemma raises_calculate_skill_strength:
  "raises_only_Exception e \<Longrightarrow> calculate_skill_strength e m w = (Inl exc, w') \<Longrightarrow>
     is_Exception exc"
  unfolding raises_only_Exception_def by meson

lemma raises_get_recruiter_note:
  "raises_only_Exception e \<Longrightarrow> get_recruiter_note e k n dm sk sc w = (Inl exc, w') \<Longrightarrow>
     is_Exception exc"
  unfolding raises_only_Exception_def by meson

lemma try_raises:
  assumes "process_single_resume_try e file candidate_name domain w = (Inl exc, w')"
    and roe: "raises_only_Exception e"
  shows "is_Exception exc"
  using assms(1) unfolding process_single_resume_try_def
proof (elim bind_io_InlE)
  assume "pdf_extract e file w = (Inl exc, w')"
  then show ?thesis
    by (rule raises_pdf_extract [OF roe])
next
  fix raw_text w1
  assume rest: "(case raw_text of
         None \<Rightarrow> raise_io (ValueError empty_pdf_message)
       | Some text \<Rightarrow>
           if text = [] then raise_io (ValueError empty_pdf_message)
           else
             bind_io (list_to_json e text) (\<lambda>structured.
             bind_io (extract_skill_from_resume e structured (SKILL_DICT e)) (\<lambda>skills'.
             bind_io (generate_analysis_metrics e skills') (\<lambda>metrics'.
             bind_io (calculate_skill_strength e metrics') (\<lambda>scoring'.
             bind_io (subscript (scoring_skill_strength_score scoring')
                        ''skill_strength_score'') (\<lambda>score'.
             bind_io (get_recruiter_note e (GEMINI_KEY e) candidate_name domain skills' score')
               (\<lambda>note.
             bind_io (subscript (scoring_weighted_sum scoring') ''weighted_sum'') (\<lambda>ws.
             bind_io (subscript (scoring_net_skills scoring') ''net_skills'') (\<lambda>ns.
               return_io
                 \<lparr>name = Some candidate_name,
                  score = Some score',
                  weighted_sum = Some ws,
                  net_skills = Some ns,
                  metrics = Some metrics',
                  skills = Some skills',
                  recruiter_note = Some note,
                  error = None,
                  rank = None\<rparr>))))))))) w1 = (Inl exc, w')"
  show ?thesis
  proof (cases raw_text)
    case None
    then show ?thesis
      using rest by (auto simp add: raise_io_def ValueError_def)
  next
    case (Some content)
    show ?thesis
    proof (cases "content = []")
      case True
      then show ?thesis
        using rest Some by (auto simp add: raise_io_def ValueError_def)
    next
      case False
      then have "bind_io (list_to_json e content) (\<lambda>structured.
             bind_io (extract_skill_from_resume e structured (SKILL_DICT e)) (\<lambda>skills'.
             bind_io (generate_analysis_metrics e skills') (\<lambda>metrics'.
             bind_io (calculate_skill_strength e metrics') (\<lambda>scoring'.
             bind_io (subscript (scoring_skill_strength_score scoring')
                        ''skill_strength_score'') (\<lambda>score'.
             bind_io (get_recruiter_note e (GEMINI_KEY e) candidate_name domain skills' score')
               (\<lambda>note.
             bind_io (subscript (scoring_weighted_sum scoring') ''weighted_sum'') (\<lambda>ws.
             bind_io (subscript (scoring_net_skills scoring') ''net_skills'') (\<lambda>ns.
               return_io
                 \<lparr>name = Some candidate_name,
                  score = Some score',
                  weighted_sum = Some ws,
                  net_skills = Some ns,
                  metrics = Some metrics',
                  skills = Some skills',
                  recruiter_note = Some note,
                  error = None,
                  rank = None\<rparr>)))))))) w1 = (Inl exc, w')"
        using rest Some by simp
      then show ?thesis
        by (elim bind_io_InlE)
          (auto simp add: return_io_def
            dest: raises_list_to_json [OF roe] raises_extract_skill_from_resume [OF roe]
              raises_generate_analysis_metrics [OF roe] raises_calculate_skill_strength [OF roe]
              raises_get_recruiter_note [OF roe] subscript_Inl)
    qed
  qed
qed

lemma process_single_resume_cases:
  "process_single_resume e file candidate_name domain w =
     (case process_single_resume_try e file candidate_name domain w of
        (Inl exc, w') \<Rightarrow>
          if is_Exception exc then (Inr (failure_record candidate_name exc), w')
          else (Inl exc, w')
      | (Inr c, w') \<Rightarrow> (Inr c, w'))"
  by (simp add: process_single_resume_def try_except_def return_io_def
      split: prod.splits sum.splits)

lemma process_single_resume_name:
  assumes "process_single_resume e file candidate_name domain w = (Inr c, w')"
  shows "name c = Some candidate_name"
proof (cases "process_single_resume_try e file candidate_name domain w")
  case (Pair r w1)
  show ?thesis
  proof (cases r)
    case (Inl exc)
    then show ?thesis
      using Pair assms
      by (auto simp add: process_single_resume_cases failure_record_def split: if_splits)
  next
    case (Inr c1)
    then have t: "process_single_resume_try e file candidate_name domain w = (Inr c1, w1)"
      using Pair by simp
    show ?thesis
      using t try_success [OF t] assms by (simp add: process_single_resume_cases)
  qed
qed

lemma process_single_resume_error:
  assumes "process_single_resume e file candidate_name domain w = (Inr c, w')"
  shows "error c = None \<or> (\<exists>exc. c = failure_record candidate_name exc)"
proof (cases "process_single_resume_try e file candidate_name domain w")
  case (Pair r w1)
  show ?thesis
  proof (cases r)
    case (Inl exc)
    then show ?thesis
      using Pair assms
      by (auto simp add: process_single_resume_cases split: if_splits)
  next
    case (Inr c1)
    then have t: "process_single_resume_try e file candidate_name domain w = (Inr c1, w1)"
      using Pair by simp
    show ?thesis
      using t try_success [OF t] assms by (simp add: process_single_resume_cases)
  qed
qed

lemma process_single_resume_total:
  "(\<exists>c w'. process_single_resume e file candidate_name domain w = (Inr c, w')) \<or>
   (\<exists>exc w'. process_single_resume e file candidate_name domain w = (Inl exc, w') \<and>
      \<not> is_Exception exc)"
proof (cases "process_single_resume_try e file candidate_name domain w")
  case (Pair r w1)
  then show ?thesis
    by (cases r) (simp_all add: process_single_resume_cases)
qed

lemma process_single_resume_returns:
  assumes "raises_only_Exception e"
  shows "\<exists>c w'. process_single_resume e file candidate_name domain w = (Inr c, w')"
proof (cases "process_single_resume_try e file candidate_name domain w")
  case (Pair r w1)
  show ?thesis
  proof (cases r)
    case (Inl exc)
    then have t: "process_single_resume_try e file candidate_name domain w = (Inl exc, w1)"
      using Pair by simp
    show ?thesis
      using t try_raises [OF t assms] by (simp add: process_single_resume_cases)
  next
    case (Inr c1)
    then show ?thesis
      using Pair by (simp add: process_single_resume_cases)
  qed
qed

text \<open>
  C4, as the code has it. The processor returns a record unless a collaborator raises
  something that is not an instance of \<open>Exception\<close>, which it passes on; with
  collaborators that raise instances of \<open>Exception\<close> only it always returns. A returned
  record either has no \<open>error\<close> key or is the degraded record: score 0.0, weighted_sum
  0.0, net_skills 0, empty metrics and skills, the message after "Processing failed: "
  in \<open>recruiter_note\<close> and the message in \<open>error\<close>. The degraded record is returned
  with the message of the exception when any step raises an instance of \<open>Exception\<close>
  (text extraction, parsing, skill matching, metrics, scoring, note generation), with the
  message of the \<open>ValueError\<close> when the extracted text is absent or empty, and with the
  quoted key when the scoring dict lacks one of its three keys; when every step succeeds
  the record holds the results of the steps and no \<open>error\<close> key.
\<close>

theorem process_single_resume_outcomes:
  "let run = process_single_resume e file candidate_name domain w;
       degraded = (\<lambda>msg.
         \<lparr>name = Some candidate_name, score = Some 0, weighted_sum = Some 0,
          net_skills = Some 0, metrics = Some [], skills = Some [],
          recruiter_note = Some (''Processing failed: '' @ msg),
          error = Some msg, rank = None\<rparr>);
       handled = (\<lambda>exc w'.
         if is_Exception exc then (Inr (degraded (str_exception exc)), w') else (Inl exc, w'))
   in
     (raises_only_Exception e \<longrightarrow> (\<exists>c w'. run = (Inr c, w'))) \<and>
     ((\<exists>c w'. run = (Inr c, w')) \<or> (\<exists>exc w'. run = (Inl exc, w') \<and> \<not> is_Exception exc)) \<and>
     (\<forall>c w'. run = (Inr c, w') \<longrightarrow> error c = None \<or> (\<exists>msg. c = degraded msg)) \<and>
     (\<forall>exc w1. pdf_extract e file w = (Inl exc, w1) \<longrightarrow> run = handled exc w1) \<and>
     (\<forall>w1. pdf_extract e file w = (Inr None, w1) \<longrightarrow>
        run = (Inr (degraded (''Empty PDF '' @ [CHR 0xE2, CHR 0x80, CHR 0x94]
                               @ '' could not extract text.'')), w1)) \<and>
     (\<forall>w1. pdf_extract e file w = (Inr (Some []), w1) \<longrightarrow>
        run = (Inr (degraded (''Empty PDF '' @ [CHR 0xE2, CHR 0x80, CHR 0x94]
                               @ '' could not extract text.'')), w1)) \<and>
     (\<forall>content w1. pdf_extract e file w = (Inr (Some content), w1) \<and> content \<noteq> [] \<longrightarrow>
        (\<forall>exc w2. list_to_json e content w1 = (Inl exc, w2) \<longrightarrow> run = handled exc w2) \<and>
        (\<forall>structured w2. list_to_json e content w1 = (Inr structured, w2) \<longrightarrow>
           (\<forall>exc w3. extract_skill_from_resume e structured (SKILL_DICT e) w2 = (Inl exc, w3) \<longrightarrow>
              run = handled exc w3) \<and>
           (\<forall>skills' w3.
              extract_skill_from_resume e structured (SKILL_DICT e) w2 = (Inr skills', w3) \<longrightarrow>
              (\<forall>exc w4. generate_analysis_metrics e skills' w3 = (Inl exc, w4) \<longrightarrow>
                 run = handled exc w4) \<and>
              (\<forall>metrics' w4. generate_analysis_metrics e skills' w3 = (Inr metrics', w4) \<longrightarrow>
                 (\<forall>exc w5. calculate_skill_strength e metrics' w4 = (Inl exc, w5) \<longrightarrow>
                    run = handled exc w5) \<and>
                 (\<forall>scoring' w5. calculate_skill_strength e metrics' w4 = (Inr scoring', w5) \<longrightarrow>
                    (scoring_skill_strength_score scoring' = None \<longrightarrow>
                       run = (Inr (degraded (CHR 0x27 # ''skill_strength_score'' @ [CHR 0x27])),
                              w5)) \<and>
                    (\<forall>score'. scoring_skill_strength_score scoring' = Some score' \<longrightarrow>
                       (\<forall>exc w6.
                          get_recruiter_note e (GEMINI_KEY e) candidate_name domain skills' score'
                            w5 = (Inl exc, w6) \<longrightarrow>
                          run = handled exc w6) \<and>
                       (\<forall>nt w6.
                          get_recruiter_note e (GEMINI_KEY e) candidate_name domain skills' score'
                            w5 = (Inr nt, w6) \<longrightarrow>
                          (scoring_weighted_sum scoring' = None \<longrightarrow>
                             run = (Inr (degraded (CHR 0x27 # ''weighted_sum'' @ [CHR 0x27])),
                                    w6)) \<and>
                          (\<forall>ws. scoring_weighted_sum scoring' = Some ws \<longrightarrow>
                             (scoring_net_skills scoring' = None \<longrightarrow>
                                run = (Inr (degraded (CHR 0x27 # ''net_skills'' @ [CHR 0x27])),
                                       w6)) \<and>
                             (\<forall>ns. scoring_net_skills scoring' = Some ns \<longrightarrow>
                                run =
                                  (Inr \<lparr>name = Some candidate_name, score = Some score',
                                        weighted_sum = Some ws, net_skills = Some ns,
                                        metrics = Some metrics', skills = Some skills',
                                        recruiter_note = Some nt, error = None,
                                        rank = None\<rparr>, w6))))))))))"
proof -
  let ?run = "process_single_resume e file candidate_name domain w"
  have a: "raises_only_Exception e \<longrightarrow> (\<exists>c w'. ?run = (Inr c, w'))"
    using process_single_resume_returns [where e = e and w = w] by blast
  have b: "(\<exists>c w'. ?run = (Inr c, w')) \<or> (\<exists>exc w'. ?run = (Inl exc, w') \<and> \<not> is_Exception exc)"
    by (rule process_single_resume_total)
  have c: "error c = None \<or>
      (\<exists>msg. c = \<lparr>name = Some candidate_name, score = Some 0, weighted_sum = Some 0,
          net_skills = Some 0, metrics = Some [], skills = Some [],
          recruiter_note = Some (''Processing failed: '' @ msg),
          error = Some msg, rank = None\<rparr>)"
    if "?run = (Inr c, w')" for c w'
    using process_single_resume_error [OF that] by (auto simp add: failure_record_def)
  show ?thesis
    unfolding Let_def
    apply (intro conjI)
          apply (rule a)
         apply (rule b)
        apply (intro allI impI, erule c)
       apply (simp_all add: process_single_resume_cases process_single_resume_try_def
        bind_io_def raise_io_def return_io_def subscript_def failure_record_def
        ValueError_def KeyError_def empty_pdf_message_def)
    done
qed

theorem process_single_resume_outcomes_witness:
  "raises_only_Exception example_env \<and>
   (\<exists>c w'. process_single_resume example_env empty_upload ''John Doe Smith'' ''Data'' 0 =
      (Inr c, w')) \<and>
   pdf_extract example_env empty_upload 0 = (Inr (Some []), 1) \<and>
   process_single_resume example_env empty_upload ''John Doe Smith'' ''Data'' 0 =
     (Inr \<lparr>name = Some ''John Doe Smith'', score = Some 0, weighted_sum = Some 0,
           net_skills = Some 0, metrics = Some [], skills = Some [],
           recruiter_note =
             Some (''Processing failed: '' @ ''Empty PDF '' @ [CHR 0xE2, CHR 0x80, CHR 0x94]
                     @ '' could not extract text.''),
           error =
             Some (''Empty PDF '' @ [CHR 0xE2, CHR 0x80, CHR 0x94]
                     @ '' could not extract text.''),
           rank = None\<rparr>, 1)"
proof -
  have r: "raises_only_Exception example_env"
    by (simp add: raises_only_Exception_def example_env_def)
  have h: "pdf_extract example_env empty_upload 0 = (Inr (Some []), 1)"
    by (simp add: example_env_def empty_upload_def)
  note inst = process_single_resume_outcomes
    [of example_env empty_upload "''John Doe Smith''" "''Data''" 0, unfolded Let_def]
  have ret: "\<exists>c w'. process_single_resume example_env empty_upload ''John Doe Smith'' ''Data'' 0 =
      (Inr c, w')"
    using inst [THEN conjunct1] r by (rule mp)
  note deg = inst [THEN conjunct2, THEN conjunct2, THEN conjunct2, THEN conjunct2,
      THEN conjunct2, THEN conjunct1, THEN spec, THEN mp, OF h]
  show ?thesis
    using r ret h deg by simp
qed

theorem process_single_resume_outcomes_counterexample:
  "process_single_resume interrupted_env full_upload ''Zed'' ''Data'' 0 =
     (Inl KeyboardInterrupt, 0) \<and>
   \<not> is_Exception KeyboardInterrupt"
  by (simp add: process_single_resume_cases process_single_resume_try_def bind_io_def
      interrupted_env_def KeyboardInterrupt_def)

section \<open>Properties of the route\<close>

lemma length_title_from: "length (title_from b s) = length s"
  by (induction s arbitrary: b) simp_all

lemma title_keeps_nonempty_ascii_methods: "title_keeps_nonempty ascii_methods"
proof -
  have "ascii_title s \<noteq> []" if "s \<noteq> []" for s
    using that length_title_from [of False s] by (auto simp add: ascii_title_def)
  then show ?thesis
    by (simp add: title_keeps_nonempty_def ascii_methods_def)
qed

lemma replace_char_nonempty: "s \<noteq> [] \<Longrightarrow> replace_char s old new \<noteq> []"
  by (simp add: replace_char_def)

lemma skip_leading_dots_root:
  "fst (skip_leading_dots p i d) = p \<or> (fst (skip_leading_dots p i d) = take d p \<and> 0 < d)"
proof (induction p i d rule: skip_leading_dots.induct)
  case (1 p filenameIndex dotIndex)
  have eq: "skip_leading_dots p filenameIndex dotIndex =
     (if filenameIndex < dotIndex then
        if take 1 (drop filenameIndex p) \<noteq> ''.'' then (take dotIndex p, drop dotIndex p)
        else skip_leading_dots p (Suc filenameIndex) dotIndex
      else (p, []))"
    by (rule skip_leading_dots.simps)
  show ?case
  proof (cases "filenameIndex < dotIndex")
    case True
    then show ?thesis
      using "1.IH" by (cases "take 1 (drop filenameIndex p) \<noteq> ''.''") (simp_all add: eq)
  next
    case False
    then show ?thesis
      by (simp add: eq)
  qed
qed

lemma splitext_root_nonempty:
  assumes "p \<noteq> []"
  shows "fst (splitext p) \<noteq> []"
proof (cases "rfind p CHR ''/'' < rfind p CHR ''.''")
  case True
  then have "fst (splitext p) =
      fst (skip_leading_dots p (nat (rfind p CHR ''/'' + 1)) (nat (rfind p CHR ''.'')))"
    by (simp add: splitext_def Let_def)
  then show ?thesis
    using skip_leading_dots_root [of p "nat (rfind p CHR ''/'' + 1)" "nat (rfind p CHR ''.'')"]
      assms
    by auto
next
  case False
  then show ?thesis
    using assms by (simp add: splitext_def Let_def)
qed

lemma stem_title_nonempty:
  assumes "title_keeps_nonempty u" and "p \<noteq> []"
  shows "str_title u
      (replace_char (replace_char (fst (splitext p)) CHR ''_'' CHR '' '') CHR ''-'' CHR '' '')
    \<noteq> []"
proof -
  have "replace_char (replace_char (fst (splitext p)) CHR ''_'' CHR '' '') CHR ''-'' CHR '' ''
      \<noteq> []"
    using assms(2) by (intro replace_char_nonempty splitext_root_nonempty)
  then show ?thesis
    using assms(1) by (simp add: title_keeps_nonempty_def)
qed

text \<open>The names of the records that the loop appends, in upload order.\<close>

lemma process_files_names:
  assumes "process_files u e names domain i files acc w = (Inr res, w')"
  shows "\<exists>cs. res = acc @ cs \<and>
     map name cs =
       map (\<lambda>(k, f).
              Some (if k < length names \<and> str_strip u (names ! k) \<noteq> []
                    then str_strip u (names ! k)
                    else str_title u (replace_char (replace_char (fst (splitext (filename f)))
                           CHR ''_'' CHR '' '') CHR ''-'' CHR '' '')))
         (enumerate i files)"
  using assms
proof (induction files arbitrary: i acc w)
  case Nil
  then show ?case by (simp add: return_io_def)
next
  case (Cons f fs)
  let ?n = "if i < length names \<and> str_strip u (names ! i) \<noteq> [] then str_strip u (names ! i)
      else str_title u (replace_char (replace_char (fst (splitext (filename f)))
             CHR ''_'' CHR '' '') CHR ''-'' CHR '' '')"
  have "bind_io (process_single_resume e f ?n domain)
      (\<lambda>c. process_files u e names domain (Suc i) fs (acc @ [c])) w = (Inr res, w')"
    using Cons.prems by (simp only: process_files.simps Let_def)
  then obtain c w1 where run: "process_single_resume e f ?n domain w = (Inr c, w1)"
    and rest: "process_files u e names domain (Suc i) fs (acc @ [c]) w1 = (Inr res, w')"
    by (rule bind_io_InrE)
  have nm: "name c = Some ?n"
    by (rule process_single_resume_name [OF run])
  obtain cs where res: "res = (acc @ [c]) @ cs"
    and nms: "map name cs =
       map (\<lambda>(k, f).
              Some (if k < length names \<and> str_strip u (names ! k) \<noteq> []
                    then str_strip u (names ! k)
                    else str_title u (replace_char (replace_char (fst (splitext (filename f)))
                           CHR ''_'' CHR '' '') CHR ''-'' CHR '' '')))
         (enumerate (Suc i) fs)"
    using Cons.IH [OF rest] by blast
  have "res = acc @ c # cs"
    using res by simp
  moreover have "map name (c # cs) =
       map (\<lambda>(k, f).
              Some (if k < length names \<and> str_strip u (names ! k) \<noteq> []
                    then str_strip u (names ! k)
                    else str_title u (replace_char (replace_char (fst (splitext (filename f)))
                           CHR ''_'' CHR '' '') CHR ''-'' CHR '' '')))
         (enumerate i (f # fs))"
    using nm nms by simp
  ultimately show ?case by blast
qed

lemma process_files_returns:
  assumes "raises_only_Exception e"
  shows "\<exists>res w'. process_files u e names domain i files acc w = (Inr res, w')"
proof (induction files arbitrary: i acc w)
  case Nil
  then show ?case by (simp add: return_io_def)
next
  case (Cons f fs)
  let ?n = "if i < length names \<and> str_strip u (names ! i) \<noteq> [] then str_strip u (names ! i)
      else str_title u (replace_char (replace_char (fst (splitext (filename f)))
             CHR ''_'' CHR '' '') CHR ''-'' CHR '' '')"
  obtain c w1 where run: "process_single_resume e f ?n domain w = (Inr c, w1)"
    using process_single_resume_returns [OF assms, where w = w] by blast
  have "process_files u e names domain i (f # fs) acc w =
      process_files u e names domain (Suc i) fs (acc @ [c]) w1"
    by (simp only: process_files.simps Let_def
        bind_io_step [where m = "process_single_resume e f ?n domain" and w = w, OF run])
  then show ?case
    using Cons.IH [of "Suc i" "acc @ [c]" w1] by simp
qed

lemma records_of_new_store: "records_of (fst (new_store cs)) (snd (new_store cs)) = cs"
  by (rule nth_equalityI) (simp_all add: new_store_def records_of_def)

lemma ranked_names:
  assumes "get_domain_leaderboard u s l = (s', r)"
  shows "mset (map name (records_of s' r)) = mset (map name (records_of s l))"
proof -
  have nm_fun: "(\<lambda>a. name (dict_heap s' a)) = (\<lambda>a. name (dict_heap s a))"
    using ranked_fields [OF assms] by auto
  have "mset (map name (records_of s' r)) =
      image_mset (\<lambda>a. name (dict_heap s' a)) (mset (list_heap s' r))"
    by (simp add: records_of_def comp_def)
  also have "\<dots> = image_mset (\<lambda>a. name (dict_heap s a)) (mset (list_heap s l))"
    by (simp add: nm_fun ranked_list_heap [OF assms])
  also have "\<dots> = mset (map name (records_of s l))"
    by (simp add: records_of_def comp_def)
  finally show ?thesis .
qed

text \<open>
  C8: when no upload has a filename, the answer is the error body with status 400 and
  the world is the one the request started in: no collaborator has run, for any
  collaborators at all.
\<close>

theorem leaderboard_rejects_empty_batch:
  assumes "filter (\<lambda>f. filename f \<noteq> []) files = []"
  shows "leaderboard u fl e files names domain_field w =
     (Inr (ErrorResponse ''No PDF files provided.'' 400), w)"
  using assms by (simp add: leaderboard_def return_io_def)

theorem leaderboard_rejects_empty_batch_witness:
  "\<forall>fl. filter (\<lambda>f. filename f \<noteq> []) [unnamed_upload] = [] \<and>
     leaderboard ascii_methods fl example_env [unnamed_upload] [''Zed''] None 0 =
       (Inr (ErrorResponse ''No PDF files provided.'' 400), 0) \<and>
     snd (leaderboard ascii_methods fl example_env [full_upload] [''Zed''] None 0) = 6"
proof
  fix fl :: float_ops
  have h: "filter (\<lambda>f. filename f \<noteq> []) [unnamed_upload] = []"
    by (simp add: unnamed_upload_def)
  have p: "snd (leaderboard ascii_methods fl example_env [full_upload] [''Zed''] None 0) = 6"
    by code_simp
  show "filter (\<lambda>f. filename f \<noteq> []) [unnamed_upload] = [] \<and>
     leaderboard ascii_methods fl example_env [unnamed_upload] [''Zed''] None 0 =
       (Inr (ErrorResponse ''No PDF files provided.'' 400), 0) \<and>
     snd (leaderboard ascii_methods fl example_env [full_upload] [''Zed''] None 0) = 6"
    using h p leaderboard_rejects_empty_batch [OF h] by simp
qed

text \<open>
  C9, as the code has it. When the route answers a batch with a leaderboard, every
  record in it has a name that is not empty, and the names are those of the uploads with
  a filename, numbered from 0 in upload order: the stripped form value at the same
  number when there is one and it is not blank, otherwise the filename as it was sent,
  directory part included, without its extension, with underscores and hyphens turned
  into spaces, in title case. With collaborators that raise instances of \<open>Exception\<close>
  only, a batch with at least one such upload is answered with a leaderboard.
\<close>

theorem leaderboard_names:
  assumes "filter (\<lambda>f. filename f \<noteq> []) files \<noteq> []"
    and "title_keeps_nonempty u"
  shows "(\<forall>body w'.
      leaderboard u fl e files names domain_field w = (Inr (LeaderboardResponse body), w') \<longrightarrow>
      (\<forall>c \<in> set (resp_leaderboard body). \<exists>n. name c = Some n \<and> n \<noteq> []) \<and>
      mset (map name (resp_leaderboard body)) =
        mset (map (\<lambda>(i, f).
                    Some (if i < length names \<and> str_strip u (names ! i) \<noteq> []
                          then str_strip u (names ! i)
                          else str_title u
                                 (replace_char (replace_char (fst (splitext (filename f)))
                                    CHR ''_'' CHR '' '') CHR ''-'' CHR '' '')))
               (enumerate 0 (filter (\<lambda>f. filename f \<noteq> []) files)))) \<and>
    (raises_only_Exception e \<longrightarrow>
       (\<exists>body w'.
          leaderboard u fl e files names domain_field w = (Inr (LeaderboardResponse body), w')))"
proof -
  let ?valid = "filter (\<lambda>f. filename f \<noteq> []) files"
  let ?domain =
    "str_strip u (case domain_field of None \<Rightarrow> ''Software Engineering'' | Some d \<Rightarrow> d)"
  let ?derive = "\<lambda>(i, f).
      Some (if i < length names \<and> str_strip u (names ! i) \<noteq> [] then str_strip u (names ! i)
            else str_title u (replace_char (replace_char (fst (splitext (filename f)))
                   CHR ''_'' CHR '' '') CHR ''-'' CHR '' ''))"
  let ?finish = "\<lambda>candidates w1.
      case build_leaderboard_summary fl
             (fst (get_domain_leaderboard u (fst (new_store candidates))
                (snd (new_store candidates))))
             (snd (get_domain_leaderboard u (fst (new_store candidates))
                (snd (new_store candidates)))) of
        Inl exc \<Rightarrow> (Inl exc, w1)
      | Inr summary' \<Rightarrow>
          (Inr (LeaderboardResponse
             \<lparr>resp_status = ''success'', resp_domain = ?domain,
              resp_total_candidates =
                int (length (list_heap
                  (fst (get_domain_leaderboard u (fst (new_store candidates))
                     (snd (new_store candidates))))
                  (snd (get_domain_leaderboard u (fst (new_store candidates))
                     (snd (new_store candidates)))))),
              resp_summary = summary',
              resp_leaderboard =
                records_of
                  (fst (get_domain_leaderboard u (fst (new_store candidates))
                     (snd (new_store candidates))))
                  (snd (get_domain_leaderboard u (fst (new_store candidates))
                     (snd (new_store candidates))))\<rparr>), w1)"
  have valid: "filter (\<lambda>f. filename f \<noteq> [] \<and> filename f \<noteq> []) files = ?valid"
    by simp
  have unfold: "leaderboard u fl e files names domain_field w =
      bind_io (process_files u e names ?domain 0 ?valid []) ?finish w"
    unfolding leaderboard_def Let_def valid
    using assms(1)
    by (simp add: case_prod_beta bind_io_def raise_io_def return_io_def
        split: prod.splits sum.splits)
  have ne: "\<exists>n. x = Some n \<and> n \<noteq> []" if "x \<in> set (map ?derive (enumerate 0 ?valid))" for x
  proof -
    have "x \<in> ?derive ` set (enumerate 0 ?valid)"
      using that by (simp only: set_map)
    then obtain p where p: "p \<in> set (enumerate 0 ?valid)" and xp: "x = ?derive p"
      by (rule imageE)
    obtain i f where pf: "p = (i, f)"
      by (cases p)
    have x: "x = ?derive (i, f)"
      using xp pf by simp
    have "(i, f) \<in> set (enumerate 0 ?valid)"
      using p pf by simp
    then have "i < length ?valid \<and> ?valid ! i = f"
      by (simp add: in_set_enumerate_eq)
    then have "f \<in> set ?valid"
      by (metis nth_mem)
    then have "filename f \<noteq> []"
      by simp
    then have stem: "str_title u (replace_char (replace_char (fst (splitext (filename f)))
        CHR ''_'' CHR '' '') CHR ''-'' CHR '' '') \<noteq> []"
      by (rule stem_title_nonempty [OF assms(2)])
    show ?thesis
    proof (cases "i < length names \<and> str_strip u (names ! i) \<noteq> []")
      case True
      then show ?thesis using x by simp
    next
      case False
      then show ?thesis using x stem by simp
    qed
  qed
  have part1: "(\<forall>c \<in> set (resp_leaderboard body). \<exists>n. name c = Some n \<and> n \<noteq> []) \<and>
      mset (map name (resp_leaderboard body)) = mset (map ?derive (enumerate 0 ?valid))"
    if resp: "leaderboard u fl e files names domain_field w = (Inr (LeaderboardResponse body), w')"
    for body w'
  proof -
    obtain cs w1 where run: "process_files u e names ?domain 0 ?valid [] w = (Inr cs, w1)"
      and fin: "?finish cs w1 = (Inr (LeaderboardResponse body), w')"
      using resp unfolding unfold by (rule bind_io_InrE)
    obtain s1 ranked where gdl:
      "get_domain_leaderboard u (fst (new_store cs)) (snd (new_store cs)) = (s1, ranked)"
      by (cases "get_domain_leaderboard u (fst (new_store cs)) (snd (new_store cs))")
    have lb: "resp_leaderboard body = records_of s1 ranked"
      using fin by (auto simp add: gdl split: sum.splits)
    have nms: "map name cs = map ?derive (enumerate 0 ?valid)"
      using process_files_names [OF run] by simp
    have ms: "mset (map name (records_of s1 ranked)) = mset (map ?derive (enumerate 0 ?valid))"
      using ranked_names [OF gdl] by (simp add: records_of_new_store nms)
    have all: "\<forall>c \<in> set (records_of s1 ranked). \<exists>n. name c = Some n \<and> n \<noteq> []"
    proof
      fix c
      assume "c \<in> set (records_of s1 ranked)"
      then have "name c \<in> set (map name (records_of s1 ranked))"
        by simp
      then have "name c \<in> set (map ?derive (enumerate 0 ?valid))"
        by (simp only: mset_eq_setD [OF ms])
      then show "\<exists>n. name c = Some n \<and> n \<noteq> []"
        by (rule ne)
    qed
    show ?thesis
      using all ms by (simp only: lb)
  qed
  have part2: "\<exists>body w'.
      leaderboard u fl e files names domain_field w = (Inr (LeaderboardResponse body), w')"
    if roe: "raises_only_Exception e"
  proof -
    obtain cs w1 where run: "process_files u e names ?domain 0 ?valid [] w = (Inr cs, w1)"
      using process_files_returns [OF roe, where w = w] by blast
    obtain sm where sm: "build_leaderboard_summary fl
             (fst (get_domain_leaderboard u (fst (new_store cs)) (snd (new_store cs))))
             (snd (get_domain_leaderboard u (fst (new_store cs)) (snd (new_store cs)))) = Inr sm"
      using build_leaderboard_summary_returns by blast
    have "leaderboard u fl e files names domain_field w = ?finish cs w1"
      unfolding unfold
      by (rule bind_io_step [where m = "process_files u e names ?domain 0 ?valid []", OF run])
    then show ?thesis
      by (simp add: sm)
  qed
  show ?thesis
    using part1 part2 by blast
qed

theorem leaderboard_names_witness:
  "\<forall>fl. filter (\<lambda>f. filename f \<noteq> []) [empty_upload, unnamed_upload, full_upload] \<noteq> [] \<and>
     title_keeps_nonempty ascii_methods \<and>
     raises_only_Exception example_env \<and>
     (\<exists>body w'.
        leaderboard ascii_methods fl example_env [empty_upload, unnamed_upload, full_upload]
          ['' '', ''Zed''] None 0 = (Inr (LeaderboardResponse body), w') \<and>
        (\<forall>c \<in> set (resp_leaderboard body). \<exists>n. name c = Some n \<and> n \<noteq> []) \<and>
        mset (map name (resp_leaderboard body)) = {#Some ''John Doe Smith'', Some ''Zed''#})"
proof
  fix fl :: float_ops
  have h: "filter (\<lambda>f. filename f \<noteq> []) [empty_upload, unnamed_upload, full_upload] \<noteq> []"
    by (simp add: empty_upload_def)
  have t: "title_keeps_nonempty ascii_methods"
    by (rule title_keeps_nonempty_ascii_methods)
  have roe: "raises_only_Exception example_env"
    by (simp add: raises_only_Exception_def example_env_def)
  have r: "map (\<lambda>(i, f).
                   Some (if i < length ['' '', ''Zed'']
                            \<and> str_strip ascii_methods (['' '', ''Zed''] ! i) \<noteq> []
                         then str_strip ascii_methods (['' '', ''Zed''] ! i)
                         else str_title ascii_methods
                                (replace_char (replace_char (fst (splitext (filename f)))
                                   CHR ''_'' CHR '' '') CHR ''-'' CHR '' '')))
              (enumerate 0 (filter (\<lambda>f. filename f \<noteq> [])
                 [empty_upload, unnamed_upload, full_upload])) =
           [Some ''John Doe Smith'', Some ''Zed'']"
    by code_simp
  note inst = leaderboard_names [OF h t, where fl = fl and e = example_env
      and names = "['' '', ''Zed'']" and domain_field = None and w = 0]
  obtain body w' where resp:
    "leaderboard ascii_methods fl example_env [empty_upload, unnamed_upload, full_upload]
       ['' '', ''Zed''] None 0 = (Inr (LeaderboardResponse body), w')"
    using inst [THEN conjunct2] roe by blast
  have "(\<forall>c \<in> set (resp_leaderboard body). \<exists>n. name c = Some n \<and> n \<noteq> []) \<and>
      mset (map name (resp_leaderboard body)) = {#Some ''John Doe Smith'', Some ''Zed''#}"
    using inst [THEN conjunct1, THEN spec, THEN spec, THEN mp, OF resp]
    by (simp only: r) simp
  then show "filter (\<lambda>f. filename f \<noteq> []) [empty_upload, unnamed_upload, full_upload] \<noteq> [] \<and>
     title_keeps_nonempty ascii_methods \<and>
     raises_only_Exception example_env \<and>
     (\<exists>body w'.
        leaderboard ascii_methods fl example_env [empty_upload, unnamed_upload, full_upload]
          ['' '', ''Zed''] None 0 = (Inr (LeaderboardResponse body), w') \<and>
        (\<forall>c \<in> set (resp_leaderboard body). \<exists>n. name c = Some n \<and> n \<noteq> []) \<and>
        mset (map name (resp_leaderboard body)) = {#Some ''John Doe Smith'', Some ''Zed''#})"
    using h t roe resp by blast
qed

text \<open>
  The upload \<open>up/john_doe.pdf\<close> without a form name: the loop names the record
  "Up/John Doe", where the base name without its extension gives "John Doe".
\<close>

theorem leaderboard_names_counterexample:
  "fst (process_files ascii_methods example_env [] ''Data'' 0 [nested_upload] [] 0) =
     Inr [\<lparr>name = Some ''Up/John Doe'', score = Some 7, weighted_sum = Some 3,
           net_skills = Some 2, metrics = Some [(''total_strong_skills'', 1)],
           skills = Some [(''languages'', [''python''])],
           recruiter_note = Some ''A note on Up/John Doe'', error = None, rank = None\<rparr>] \<and>
   str_title ascii_methods
     (replace_char (replace_char (spec_base_name_without_extension (filename nested_upload))
        CHR ''_'' CHR '' '') CHR ''-'' CHR '' '') = ''John Doe'' \<and>
   ''Up/John Doe'' \<noteq> ''John Doe''"
  by code_simp

end
